theory Spec2Isabelle
  imports Complex_Main
begin

section \<open>Python values used by bot.py\<close>

text \<open>
  The bot is a single Python file, \<^verbatim>\<open>src/bot.py\<close>. Its handlers read and write two SQLite
  tables and two in-memory dictionaries, and call three libraries: \<^verbatim>\<open>decimal\<close>,
  \<^verbatim>\<open>datetime\<close> and (optionally) \<^verbatim>\<open>eth_utils\<close>. This section models the Python
  values the handlers compute with; the handlers follow in the next sections.

  Python exceptions are values of \<open>exn\<close>; a computation that may raise returns
  \<open>exn + 'a\<close>, with \<open>Inl\<close> for the exception.
\<close>

datatype exn = InvalidOperation | TypeError | TelegramError

subsection \<open>Strings\<close>

text \<open>
  A Python \<^verbatim>\<open>str\<close> is modelled as a \<open>string\<close> whose characters are the code points
  below 256. \<^verbatim>\<open>str.strip()\<close> removes, at both ends, the characters for which
  \<^verbatim>\<open>str.isspace()\<close> holds; below 256 these are the code points 9 to 13, 28 to 32, 133
  and 160.
\<close>

definition isspace :: "char \<Rightarrow> bool" where
  "isspace c = (let n = (of_char c :: nat) in
     (9 \<le> n \<and> n \<le> 13) \<or> (28 \<le> n \<and> n \<le> 32) \<or> n = 133 \<or> n = 160)"

definition strip :: "string \<Rightarrow> string" where
  "strip s = rev (dropWhile isspace (rev (dropWhile isspace s)))"

definition startswith :: "string \<Rightarrow> string \<Rightarrow> bool" where
  "startswith s p = (take (length p) s = p)"

definition isdigit :: "char \<Rightarrow> bool" where
  "isdigit c = (48 \<le> (of_char c :: nat) \<and> (of_char c :: nat) \<le> 57)"

definition digit_char :: "nat \<Rightarrow> char" where
  "digit_char k = ''0123456789'' ! k"

definition digit_val :: "char \<Rightarrow> nat" where
  "digit_val c = of_char c - 48"

text \<open>\<^verbatim>\<open>str(n)\<close> for a natural number \<open>n\<close>: its decimal digits, most significant first.\<close>

fun digits10 :: "nat \<Rightarrow> string" where
  "digits10 n = (if n < 10 then [digit_char n] else digits10 (n div 10) @ [digit_char (n mod 10)])"

declare digits10.simps [simp del]

text \<open>The number a string of decimal digits denotes.\<close>

definition digits_val :: "string \<Rightarrow> nat" where
  "digits_val s = foldl (\<lambda>a c. 10 * a + digit_val c) 0 s"

subsection \<open>Decimal\<close>

text \<open>
  A finite \<^verbatim>\<open>decimal.Decimal\<close> is a sign, a coefficient and an exponent; its value is
  \<open>\<plusminus> coefficient * 10 ^ exponent\<close>. The special values (NaN, Infinity) are not modelled.
  The module sets \<^verbatim>\<open>getcontext().prec = 28\<close>: a result of context arithmetic keeps at most
  28 significant digits, rounded half-even (the context's default rounding). The exponent
  limits of the context (\<^verbatim>\<open>Emax = 999999\<close>, \<^verbatim>\<open>Emin = -999999\<close>) are not modelled:
  exponents are unbounded integers here.
\<close>

datatype decimal = Dec (dsign: bool) (dcoeff: nat) (dexp: int)

definition dec_val :: "decimal \<Rightarrow> rat" where
  "dec_val d = (if dsign d then - 1 else 1) * of_nat (dcoeff d) * 10 powi (dexp d)"

definition prec :: nat where
  "prec = 28"

text \<open>\<^verbatim>\<open>len(self._int)\<close>: the number of digits of the coefficient.\<close>

definition ndigits :: "nat \<Rightarrow> nat" where
  "ndigits n = length (digits10 n)"

text \<open>\<^verbatim>\<open>Decimal.adjusted()\<close>: the exponent of the most significant digit.\<close>

definition adjusted :: "decimal \<Rightarrow> int" where
  "adjusted d = dexp d + int (ndigits (dcoeff d)) - 1"

text \<open>
  \<^verbatim>\<open>Decimal._fix(context)\<close> for a finite number: a coefficient of more than \<open>prec\<close> digits
  is cut to \<open>prec\<close> digits, rounding half-even on the digits removed; when the increment
  carries into a further digit, the last digit is dropped and the exponent is raised.
\<close>

definition dec_fix :: "decimal \<Rightarrow> decimal" where
  "dec_fix d =
     (if dcoeff d = 0 then d
      else if ndigits (dcoeff d) \<le> prec then d
      else
        let k = ndigits (dcoeff d) - prec;
            q = dcoeff d div 10 ^ k;
            r = dcoeff d mod 10 ^ k;
            half = 5 * 10 ^ (k - 1);
            q' = (if half < r \<or> (r = half \<and> odd q) then q + 1 else q)
        in if prec < ndigits q' then Dec (dsign d) (q' div 10) (dexp d + int k + 1)
           else Dec (dsign d) q' (dexp d + int k))"

text \<open>
  \<^verbatim>\<open>cur + amount\<close> (\<^verbatim>\<open>Decimal.__add__\<close>): the exact sum, at the smaller of the two
  exponents, then \<open>dec_fix\<close>. The sum of two zeros is negative only when both are; a sum
  that cancels to zero is positive.
\<close>

definition signed_coeff :: "decimal \<Rightarrow> int" where
  "signed_coeff d = (if dsign d then - int (dcoeff d) else int (dcoeff d))"

definition exact_sum :: "decimal \<Rightarrow> decimal \<Rightarrow> int" where
  "exact_sum a b =
     (let e = min (dexp a) (dexp b)
      in signed_coeff a * 10 ^ nat (dexp a - e) + signed_coeff b * 10 ^ nat (dexp b - e))"

definition dec_add :: "decimal \<Rightarrow> decimal \<Rightarrow> decimal" where
  "dec_add a b =
     (let e = min (dexp a) (dexp b);
          s = exact_sum a b;
          sg = (if dcoeff a = 0 \<and> dcoeff b = 0 then dsign a \<and> dsign b else s < 0)
      in dec_fix (Dec sg (nat \<bar>s\<bar>) e))"

text \<open>\<^verbatim>\<open>a < b\<close> on two finite Decimals compares their values.\<close>

definition dec_less :: "decimal \<Rightarrow> decimal \<Rightarrow> bool" where
  "dec_less a b = (dec_val a < dec_val b)"

text \<open>\<^verbatim>\<open>Decimal("0")\<close>, the literal the approval path writes.\<close>

definition dec_zero :: decimal where
  "dec_zero = Dec False 0 0"

text \<open>
  \<^verbatim>\<open>Decimal._rescale(exp, ROUND_DOWN)\<close>: the coefficient at exponent \<open>e\<close>, padded with
  zeros when the exponent gets smaller, cut (digits dropped, never incremented) when it
  gets larger.
\<close>

definition rescale_down :: "decimal \<Rightarrow> int \<Rightarrow> decimal" where
  "rescale_down d e =
     (if dcoeff d = 0 then Dec (dsign d) 0 e
      else if e \<le> dexp d then Dec (dsign d) (dcoeff d * 10 ^ nat (dexp d - e)) e
      else Dec (dsign d) (dcoeff d div 10 ^ nat (e - dexp d)) e)"

text \<open>
  \<^verbatim>\<open>d.quantize(q, rounding=ROUND_DOWN)\<close> where \<open>e\<close> is the exponent of \<open>q\<close>. Unlike other
  operations, quantize signals \<^verbatim>\<open>InvalidOperation\<close> (trapped by the default context, so
  raised) when the coefficient of the result would have more than \<open>prec\<close> digits.
\<close>

definition quantize_down :: "decimal \<Rightarrow> int \<Rightarrow> exn + decimal" where
  "quantize_down d e =
     (if dcoeff d = 0 then Inr (dec_fix (Dec (dsign d) 0 e))
      else if int prec < adjusted d - e + 1 then Inl InvalidOperation
      else
        let ans = rescale_down d e
        in if prec < ndigits (dcoeff ans) then Inl InvalidOperation
           else Inr (dec_fix ans))"

text \<open>
  \<^verbatim>\<open>Decimal.normalize()\<close>: after \<open>dec_fix\<close>, a zero becomes \<open>0E0\<close> with its sign, and
  trailing zeros of a coefficient move into the exponent.
\<close>

fun strip_zeros :: "nat \<Rightarrow> int \<Rightarrow> nat \<times> int" where
  "strip_zeros c e = (if c \<noteq> 0 \<and> c mod 10 = 0 then strip_zeros (c div 10) (e + 1) else (c, e))"

declare strip_zeros.simps [simp del]

definition normalize_dec :: "decimal \<Rightarrow> decimal" where
  "normalize_dec d =
     (let dup = dec_fix d
      in if dcoeff dup = 0 then Dec (dsign dup) 0 0
         else case strip_zeros (dcoeff dup) (dexp dup) of (c, e) \<Rightarrow> Dec (dsign dup) c e)"

text \<open>
  \<^verbatim>\<open>format(d, "f")\<close> (\<^verbatim>\<open>Decimal.__format__\<close> with type \<^verbatim>\<open>f\<close> and no precision): the
  digits of the coefficient with the decimal point placed \<open>-exponent\<close> digits from the
  right, a leading \<^verbatim>\<open>0\<close> when no digit stands before the point, no point when no digit
  stands after it, and a minus sign for a negative sign (also of zero).
\<close>

definition format_f :: "decimal \<Rightarrow> string" where
  "format_f d =
     (let ds = digits10 (dcoeff d);
          dotplace = dexp d + int (length ds);
          intpart = (if dotplace < 0 then ''0''
                     else if int (length ds) < dotplace then ds @ replicate (nat (dotplace - int (length ds))) CHR ''0''
                     else if take (nat dotplace) ds = [] then ''0'' else take (nat dotplace) ds);
          fracpart = (if dotplace < 0 then replicate (nat (- dotplace)) CHR ''0'' @ ds
                      else if int (length ds) < dotplace then []
                      else drop (nat dotplace) ds)
      in (if dsign d then ''-'' else []) @ intpart @ (if fracpart = [] then [] else ''.'' @ fracpart))"

subsection \<open>Utilities of bot.py\<close>

text \<open>\<^verbatim>\<open>DECIMALS_DISPLAY = Decimal("0.000001")\<close>\<close>

definition DECIMALS_DISPLAY :: decimal where
  "DECIMALS_DISPLAY = Dec False 1 (- 6)"

text \<open>
  \<^verbatim>\<open>
  def format_bnb(d: Decimal):
      q = d.quantize(DECIMALS_DISPLAY, rounding=ROUND_DOWN)
      s = format(q.normalize(), "f")
      return f"{s} BNB"
  \<close>
\<close>

definition format_bnb :: "decimal \<Rightarrow> exn + string" where
  "format_bnb d =
     (case quantize_down d (dexp DECIMALS_DISPLAY) of
        Inl e \<Rightarrow> Inl e
      | Inr q \<Rightarrow> Inr (format_f (normalize_dec q) @ '' BNB''))"

text \<open>
  \<^verbatim>\<open>to_decimal(x)\<close> returns a Decimal unchanged and otherwise parses \<^verbatim>\<open>str(x)\<close>, with
  \<^verbatim>\<open>Decimal("0")\<close> when that fails. The balance and amount columns are TEXT written only
  as \<^verbatim>\<open>str(d)\<close> of a Decimal \<open>d\<close> (or the default \<^verbatim>\<open>'0'\<close>), and
  \<^verbatim>\<open>Decimal(str(d))\<close> is \<open>d\<close> again (sign, coefficient and exponent), so these columns
  are modelled as holding the Decimal itself and \<open>to_decimal\<close> reads it back.
\<close>

definition to_decimal :: "decimal \<Rightarrow> decimal" where
  "to_decimal x = x"

text \<open>
  \<^verbatim>\<open>int(s)\<close> on a string: surrounding whitespace is removed, then an optional sign and
  decimal digits, in which single underscores may separate digits. \<open>None\<close> stands for
  \<^verbatim>\<open>ValueError\<close>. (Digits outside ASCII and the interpreter's limit on the number of
  digits are not modelled.)
\<close>

fun int_body_ok :: "string \<Rightarrow> bool" where
  "int_body_ok [] = False"
| "int_body_ok [c] = isdigit c"
| "int_body_ok (c # d # r) =
     (isdigit c \<and> (if d = CHR ''_'' then int_body_ok r else int_body_ok (d # r)))"

definition py_int :: "string \<Rightarrow> int option" where
  "py_int s0 =
     (let s = strip s0;
          neg = (s \<noteq> [] \<and> hd s = CHR ''-'');
          body = (if s \<noteq> [] \<and> (hd s = CHR ''-'' \<or> hd s = CHR ''+'') then tl s else s)
      in if int_body_ok body
         then Some ((if neg then - 1 else 1) * int (digits_val (filter isdigit body)))
         else None)"

text \<open>\<^verbatim>\<open>s.split(sep)\<close> for a one-character separator: the pieces between the separators.\<close>

fun split_on :: "char \<Rightarrow> string \<Rightarrow> string list" where
  "split_on sep [] = [[]]"
| "split_on sep (c # cs) =
     (if c = sep then [] # split_on sep cs
      else (case split_on sep cs of p # ps \<Rightarrow> (c # p) # ps | [] \<Rightarrow> [[c]]))"

subsection \<open>Library functions taken as parameters\<close>

text \<open>
  A \<^verbatim>\<open>datetime\<close> is either aware (it denotes an instant, here in microseconds since the
  epoch, whatever its UTC offset) or naive. \<^verbatim>\<open>now_utc()\<close> returns an aware one.
  Subtracting a naive datetime from an aware one raises \<^verbatim>\<open>TypeError\<close>.

  \<^verbatim>\<open>datetime.fromisoformat\<close>, \<^verbatim>\<open>datetime.isoformat\<close> and
  \<^verbatim>\<open>eth_utils.to_checksum_address\<close> are library code; the handlers take them as the
  fields of a \<open>pylib\<close>. \<open>None\<close> as a result stands for a raised exception;
  \<open>to_checksum_address = None\<close> stands for \<^verbatim>\<open>ETH_UTILS_AVAILABLE = False\<close>.
\<close>

datatype datetime = Aware int | Naive int

record pylib =
  fromisoformat :: "string \<Rightarrow> datetime option"
  isoformat :: "datetime \<Rightarrow> string"
  to_checksum_address :: "(string \<Rightarrow> string option) option"

definition hours24 :: int where
  "hours24 = 24 * 3600 * 1000000"

text \<open>
  \<^verbatim>\<open>td.seconds\<close> of a \<^verbatim>\<open>timedelta\<close> of \<open>us\<close> microseconds: the seconds within the day,
  the whole days being kept in \<^verbatim>\<open>td.days\<close>.
\<close>

definition td_seconds :: "int \<Rightarrow> int" where
  "td_seconds us = (us div 1000000) mod 86400"

text \<open>
  \<^verbatim>\<open>
  def is_valid_bsc_address(addr: str):
      if not isinstance(addr, str):
          return False
      addr = addr.strip()
      if not (addr.startswith("0x") and len(addr) == 42):
          return False
      if ETH_UTILS_AVAILABLE:
          try:
              checksum = to_checksum_address(addr)
              return True if (addr == checksum or addr.lower() == addr or addr.upper() == addr) else True
          except Exception:
              return False
      else:
          return True
  \<close>
  \<^verbatim>\<open>lower\<close> and \<^verbatim>\<open>upper\<close> are modelled on the ASCII letters.
\<close>

definition lower_char :: "char \<Rightarrow> char" where
  "lower_char c = (let n = (of_char c :: nat) in if 65 \<le> n \<and> n \<le> 90 then char_of (n + 32) else c)"

definition upper_char :: "char \<Rightarrow> char" where
  "upper_char c = (let n = (of_char c :: nat) in if 97 \<le> n \<and> n \<le> 122 then char_of (n - 32) else c)"

definition lower :: "string \<Rightarrow> string" where
  "lower s = map lower_char s"

definition upper :: "string \<Rightarrow> string" where
  "upper s = map upper_char s"

definition is_valid_bsc_address :: "pylib \<Rightarrow> string \<Rightarrow> bool" where
  "is_valid_bsc_address lib addr0 =
     (let addr = strip addr0
      in if \<not> (startswith addr ''0x'' \<and> length addr = 42) then False
         else case to_checksum_address lib of
                Some tca \<Rightarrow>
                  (case tca addr of
                     Some checksum \<Rightarrow>
                       (if addr = checksum \<or> lower addr = addr \<or> upper addr = addr then True else True)
                   | None \<Rightarrow> False)
              | None \<Rightarrow> True)"

section \<open>Storage\<close>

text \<open>
  The two tables of \<^verbatim>\<open>db_init\<close>, keyed by their primary keys, the AUTOINCREMENT
  sequence of \<^verbatim>\<open>withdrawals\<close>, the module dictionary \<^verbatim>\<open>pending_rejects\<close> and the
  \<^verbatim>\<open>awaiting_wallet\<close> flag of each user's \<^verbatim>\<open>context.user_data\<close>. The status column
  only ever receives the three literals \<^verbatim>\<open>'pending'\<close>, \<^verbatim>\<open>'approved'\<close> and
  \<^verbatim>\<open>'rejected'\<close>.
\<close>

record user_row =
  username :: "string option"
  balance :: decimal
  referrals :: int
  referred_by :: "int option"
  wallet :: "string option"
  last_bonus :: "string option"
  joined_channel :: int
  subscribed_yt :: int
  last_bot_message_id :: "int option"

datatype status = Pending | Approved | Rejected

record withdrawal_row =
  w_telegram_id :: int
  w_amount :: decimal
  w_wallet :: string
  w_status :: status
  w_created_at :: int

record bot =
  users :: "int \<rightharpoonup> user_row"
  withdrawals :: "int \<rightharpoonup> withdrawal_row"
  wid_seq :: int
  pending_rejects :: "int \<rightharpoonup> int"
  awaiting_wallet :: "int set"

definition empty_bot :: bot where
  "empty_bot = \<lparr>users = Map.empty, withdrawals = Map.empty, wid_seq = 0,
     pending_rejects = Map.empty, awaiting_wallet = {}\<rparr>"

text \<open>The environment variables read at import time.\<close>

record config =
  ADMIN_ID :: int
  REF_BONUS :: decimal
  DAILY_BONUS :: decimal
  MIN_WITHDRAW :: decimal

subsection \<open>DB helpers\<close>

definition get_user_row :: "int \<Rightarrow> bot \<Rightarrow> user_row option" where
  "get_user_row tid s = users s tid"

text \<open>
  \<^verbatim>\<open>INSERT OR IGNORE INTO users (telegram_id, username, balance, referred_by)
  VALUES (?, ?, '0', ?)\<close> with \<^verbatim>\<open>username or None\<close>: a row is inserted only when the id has
  none; the other columns take their defaults.
\<close>

definition new_row :: "string option \<Rightarrow> int option \<Rightarrow> user_row" where
  "new_row uname refby =
     \<lparr>username = (if uname = Some [] then None else uname),
      balance = Dec False 0 0, referrals = 0, referred_by = refby, wallet = None,
      last_bonus = None, joined_channel = 0, subscribed_yt = 0,
      last_bot_message_id = None\<rparr>"

definition ensure_user :: "int \<Rightarrow> string option \<Rightarrow> int option \<Rightarrow> bot \<Rightarrow> bot" where
  "ensure_user tid uname refby s =
     (case users s tid of
        Some r \<Rightarrow> s
      | None \<Rightarrow> s\<lparr>users := (users s)(tid \<mapsto> new_row uname refby)\<rparr>)"

text \<open>\<^verbatim>\<open>UPDATE users SET ... WHERE telegram_id=?\<close>: changes the row when there is one.\<close>

definition update_user :: "int \<Rightarrow> (user_row \<Rightarrow> user_row) \<Rightarrow> bot \<Rightarrow> bot" where
  "update_user tid f s =
     (case users s tid of
        Some r \<Rightarrow> s\<lparr>users := (users s)(tid \<mapsto> f r)\<rparr>
      | None \<Rightarrow> s)"

definition add_balance :: "int \<Rightarrow> decimal \<Rightarrow> bot \<Rightarrow> bot" where
  "add_balance tid amount s =
     (let s1 = ensure_user tid None None s;
          cur = (case get_user_row tid s1 of Some row \<Rightarrow> to_decimal (balance row) | None \<Rightarrow> Dec False 0 0);
          new = dec_add cur amount
      in update_user tid (\<lambda>r. r\<lparr>balance := new\<rparr>) s1)"

definition set_balance :: "int \<Rightarrow> decimal \<Rightarrow> bot \<Rightarrow> bot" where
  "set_balance tid amount s =
     update_user tid (\<lambda>r. r\<lparr>balance := amount\<rparr>) (ensure_user tid None None s)"

definition inc_referrals :: "int \<Rightarrow> bot \<Rightarrow> bot" where
  "inc_referrals tid s = update_user tid (\<lambda>r. r\<lparr>referrals := referrals r + 1\<rparr>) s"

definition set_wallet :: "int \<Rightarrow> string \<Rightarrow> bot \<Rightarrow> bot" where
  "set_wallet tid addr s =
     update_user tid (\<lambda>r. r\<lparr>wallet := Some addr\<rparr>) (ensure_user tid None None s)"

definition record_last_bonus :: "pylib \<Rightarrow> int \<Rightarrow> datetime \<Rightarrow> bot \<Rightarrow> bot" where
  "record_last_bonus lib tid dt s =
     update_user tid (\<lambda>r. r\<lparr>last_bonus := Some (isoformat lib dt)\<rparr>) (ensure_user tid None None s)"

definition set_joined_flag :: "int \<Rightarrow> int \<Rightarrow> bot \<Rightarrow> bot" where
  "set_joined_flag tid val s =
     update_user tid (\<lambda>r. r\<lparr>joined_channel := val\<rparr>) (ensure_user tid None None s)"

definition set_subscribed_flag :: "int \<Rightarrow> int \<Rightarrow> bot \<Rightarrow> bot" where
  "set_subscribed_flag tid val s =
     update_user tid (\<lambda>r. r\<lparr>subscribed_yt := val\<rparr>) (ensure_user tid None None s)"

text \<open>
  \<^verbatim>\<open>INSERT INTO withdrawals (telegram_id, amount, wallet, status) VALUES (?, ?, ?, 'pending')\<close>
  and \<^verbatim>\<open>return c.lastrowid\<close>. AUTOINCREMENT gives the row the id after the largest one ever
  used; \<open>clock\<close> is the database's \<^verbatim>\<open>CURRENT_TIMESTAMP\<close>.
\<close>

definition create_withdrawal :: "int \<Rightarrow> decimal \<Rightarrow> string \<Rightarrow> int \<Rightarrow> bot \<Rightarrow> int \<times> bot" where
  "create_withdrawal tid amount wal clock s =
     (let wid = wid_seq s + 1
      in (wid, s\<lparr>withdrawals := (withdrawals s)(wid \<mapsto>
                   \<lparr>w_telegram_id = tid, w_amount = amount, w_wallet = wal,
                    w_status = Pending, w_created_at = clock\<rparr>),
                 wid_seq := wid\<rparr>))"

definition get_withdrawal :: "int \<Rightarrow> bot \<Rightarrow> withdrawal_row option" where
  "get_withdrawal wid s = withdrawals s wid"

definition mark_withdrawal :: "int \<Rightarrow> status \<Rightarrow> bot \<Rightarrow> bot" where
  "mark_withdrawal wid st s =
     (case withdrawals s wid of
        Some w \<Rightarrow> s\<lparr>withdrawals := (withdrawals s)(wid \<mapsto> w\<lparr>w_status := st\<rparr>)\<rparr>
      | None \<Rightarrow> s)"

definition user_is_verified :: "int \<Rightarrow> bot \<Rightarrow> bool" where
  "user_is_verified tid s =
     (case get_user_row tid s of
        None \<Rightarrow> False
      | Some row \<Rightarrow> joined_channel row = 1 \<and> subscribed_yt row = 1)"

definition save_last_bot_message :: "int \<Rightarrow> int \<Rightarrow> bot \<Rightarrow> bot" where
  "save_last_bot_message tid mid s = update_user tid (\<lambda>r. r\<lparr>last_bot_message_id := Some mid\<rparr>) s"

section \<open>Handlers\<close>

subsection \<open>Telegram calls\<close>

text \<open>
  A handler run talks to the Telegram Bot API. What the API answers is not decided by the
  bot, so each run takes a \<open>telegram\<close>: the outcome of every call the run may make.
  \<^item> \<open>answer_ok\<close>: \<^verbatim>\<open>callback_query.answer()\<close> returns (otherwise it raises);
  \<^item> \<open>edit_ok\<close>, \<open>edit2_ok\<close>: the first and the second \<^verbatim>\<open>edit_message_text\<close> of the run return;
  \<^item> \<open>send_id\<close>, \<open>send2_id\<close>: the \<^verbatim>\<open>message_id\<close> of the message sent by the first and
    the second \<^verbatim>\<open>safe_send_and_store\<close> of the run, \<open>None\<close> when \<^verbatim>\<open>send_message\<close> raises;
  \<^item> \<open>notify_ok\<close>: a direct \<^verbatim>\<open>context.bot.send_message\<close> returns;
  \<^item> \<open>member_status\<close>: the status \<^verbatim>\<open>get_chat_member\<close> returns, \<open>None\<close> when it raises;
  \<^item> \<open>bot_username\<close>: the username \<^verbatim>\<open>get_me\<close> returns, \<open>None\<close> when it raises.

  What a run sends is recorded as a list of \<open>out\<close>, in order, each message by its kind
  and the values its text is built from. A run returns this list, the exception it
  raised, if any, and the storage it leaves: writes committed before an exception stay.
\<close>

record telegram =
  answer_ok :: bool
  edit_ok :: bool
  edit2_ok :: bool
  send_id :: "int option"
  send2_id :: "int option"
  notify_ok :: bool
  member_status :: "string option"
  bot_username :: "string option"

datatype message =
    MustVerify
  | Welcome
  | StartMenu string string string
  | MainMenu
  | ReferralEarned string
  | NewUserStarted string int
  | NotMemberYet
  | CouldNotVerify
  | VerificationComplete
  | AccountSummary string int string string string
  | AlreadyClaimed int int
  | BonusReceived string
  | ReferralLink string int string
  | WalletPrompt
  | RejectNotFound
  | RejectedNotice int string
  | RejectionProcessed int
  | WalletSaved string
  | InvalidAddress
  | UseMenu
  | MinimumWithdrawal string string
  | NeedWallet
  | WithdrawRequest string int string string int int
  | WithdrawSubmitted
  | WithdrawFailed
  | NotAuthorized
  | InvalidCallback
  | WithdrawalNotFound
  | WithdrawalAlready status
  | ApprovedEdit int int string
  | ApprovedNotice string
  | TypeReason int
  | AdminStats

datatype out = SendMessage int message | EditMessage message | ReplyText message

type_synonym result = "out list \<times> exn option"

definition returned :: "out list \<Rightarrow> result" where
  "returned os = (os, None)"

definition raised :: "out list \<Rightarrow> exn \<Rightarrow> result" where
  "raised os e = (os, Some e)"

text \<open>The outputs \<open>os\<close> made before the rest of a run.\<close>

definition after :: "out list \<Rightarrow> result \<times> bot \<Rightarrow> result \<times> bot" where
  "after os r = ((os @ fst (fst r), snd (fst r)), snd r)"

text \<open>
  \<^verbatim>\<open>
  async def safe_send_and_store(chat_id, context, text, ...):
      last_mid = get_last_bot_message_id(chat_id)
      if last_mid:
          try: await context.bot.delete_message(chat_id=chat_id, message_id=last_mid)
          except Exception: pass
      msg = await context.bot.send_message(chat_id=chat_id, text=text, ...)
      save_last_bot_message(chat_id, msg.message_id)
      if ttl and ttl > 0:
          context.job_queue.run_once(...)
      return msg
  \<close>
  Deleting the previous message and scheduling the deletion of the new one touch no
  table; they are left out.
\<close>

definition safe_send_and_store :: "int option \<Rightarrow> int \<Rightarrow> message \<Rightarrow> bot \<Rightarrow> result \<times> bot" where
  "safe_send_and_store sent chat_id msg s =
     (case sent of
        None \<Rightarrow> (raised [SendMessage chat_id msg] TelegramError, s)
      | Some mid \<Rightarrow> (returned [SendMessage chat_id msg], save_last_bot_message chat_id mid s))"

definition edit_message_text :: "bool \<Rightarrow> message \<Rightarrow> bot \<Rightarrow> result \<times> bot" where
  "edit_message_text ok msg s =
     (if ok then (returned [EditMessage msg], s) else (raised [EditMessage msg] TelegramError, s))"

text \<open>
  A handler registered both as a command and as a button callback reads
  \<^verbatim>\<open>update.callback_query\<close>: on a callback it awaits \<^verbatim>\<open>callback_query.answer()\<close> first.
\<close>

datatype trigger = Callback | Command

subsection \<open>/start\<close>

text \<open>
  \<^verbatim>\<open>
  def parse_ref_arg(context):
      try:
          if context.args:
              token = context.args[0].strip()
              if token.startswith("ref="):
                  return int(token.split("=", 1)[1])
              if token.startswith("ref"):
                  return int(token[3:])
      except Exception:
          pass
      return None
  \<close>
\<close>

definition parse_ref_arg :: "string list \<Rightarrow> int option" where
  "parse_ref_arg args =
     (case args of
        [] \<Rightarrow> None
      | a # rest \<Rightarrow>
          (let token = strip a
           in if startswith token ''ref='' then py_int (drop 4 token)
              else if startswith token ''ref'' then py_int (drop 3 token)
              else None))"

text \<open>
  \<^verbatim>\<open>
  async def start_cmd(update, context):
      user = update.effective_user
      tid = user.id
      username = user.username or ""
      ref_id = parse_ref_arg(context)
      ensure_user(tid, username=username, referred_by=ref_id)
      # credit referrer if applicable (only if ref provided and not self)
      if ref_id and ref_id != tid:
          ensure_user(ref_id)
          add_balance(ref_id, to_decimal(REF_BONUS))
          inc_referrals(ref_id)
          try: await context.bot.send_message(ref_id, f"... {format_bnb(REF_BONUS)} ...")
          except Exception: pass
      try: await context.bot.send_message(ADMIN_ID, f"... New user started: ...")
      except Exception: pass
      row = get_user_row(tid)
      joined = row["joined_channel"] == 1 if row else False
      subbed = row["subscribed_yt"] == 1 if row else False
      if not (joined and subbed):
          await safe_send_and_store(tid, context, text, reply_markup=verify_single_markup(), ...)
          return
      text = (... format_bnb(DAILY_BONUS) ... format_bnb(REF_BONUS) ... format_bnb(MIN_WITHDRAW) ...)
      await safe_send_and_store(tid, context, text, reply_markup=main_menu_markup(), ...)
  \<close>
\<close>

definition start_cmd ::
  "config \<Rightarrow> telegram \<Rightarrow> int \<Rightarrow> string option \<Rightarrow> string list \<Rightarrow> bot \<Rightarrow> result \<times> bot" where
  "start_cmd cfg tg tid uname args s =
     (let username = (case uname of Some u \<Rightarrow> u | None \<Rightarrow> []);
          ref_id = parse_ref_arg args;
          s1 = ensure_user tid (Some username) ref_id s;
          s2 = (case ref_id of
                  Some r \<Rightarrow>
                    if r \<noteq> 0 \<and> r \<noteq> tid
                    then inc_referrals r (add_balance r (to_decimal (REF_BONUS cfg)) (ensure_user r None None s1))
                    else s1
                | None \<Rightarrow> s1);
          o1 = (case ref_id of
                  Some r \<Rightarrow>
                    if r \<noteq> 0 \<and> r \<noteq> tid
                    then (case format_bnb (REF_BONUS cfg) of
                            Inr t \<Rightarrow> [SendMessage r (ReferralEarned t)]
                          | Inl e \<Rightarrow> [])
                    else []
                | None \<Rightarrow> []);
          o2 = [SendMessage (ADMIN_ID cfg) (NewUserStarted username tid)];
          verified = (case get_user_row tid s2 of
                        Some row \<Rightarrow> joined_channel row = 1 \<and> subscribed_yt row = 1
                      | None \<Rightarrow> False)
      in if \<not> verified then after (o1 @ o2) (safe_send_and_store (send_id tg) tid Welcome s2)
         else case format_bnb (DAILY_BONUS cfg) of
                Inl e \<Rightarrow> (raised (o1 @ o2) e, s2)
              | Inr a \<Rightarrow>
                  (case format_bnb (REF_BONUS cfg) of
                     Inl e \<Rightarrow> (raised (o1 @ o2) e, s2)
                   | Inr b \<Rightarrow>
                       (case format_bnb (MIN_WITHDRAW cfg) of
                          Inl e \<Rightarrow> (raised (o1 @ o2) e, s2)
                        | Inr c \<Rightarrow>
                            after (o1 @ o2) (safe_send_and_store (send_id tg) tid (StartMenu a b c) s2))))"

subsection \<open>Verification and menus\<close>

text \<open>
  \<^verbatim>\<open>
  async def check_both_callback(update, context):
      q = update.callback_query
      await q.answer()
      tid = q.from_user.id
      try:
          member = await context.bot.get_chat_member(channel, tid)
          if member.status in ("member", "administrator", "creator"):
              set_joined_flag(tid, 1)
          else:
              await q.edit_message_text("... You are not a member yet. ...")
              return
      except Exception as e:
          await q.edit_message_text("... Could not verify channel membership. ...")
          return
      set_subscribed_flag(tid, 1)
      await q.edit_message_text("... Verification complete ...")
      await safe_send_and_store(tid, context, f"... {BOT_NAME} ...", reply_markup=main_menu_markup(), ...)
  \<close>
\<close>

definition check_both_callback :: "telegram \<Rightarrow> int \<Rightarrow> bot \<Rightarrow> result \<times> bot" where
  "check_both_callback tg tid s =
     (if \<not> answer_ok tg then (raised [] TelegramError, s)
      else case member_status tg of
             None \<Rightarrow> edit_message_text (edit_ok tg) CouldNotVerify s
           | Some st \<Rightarrow>
               if st = ''member'' \<or> st = ''administrator'' \<or> st = ''creator''
               then
                 (let s1 = set_joined_flag tid 1 s;
                      s2 = set_subscribed_flag tid 1 s1
                  in if \<not> edit_ok tg then (raised [EditMessage VerificationComplete] TelegramError, s2)
                     else after [EditMessage VerificationComplete]
                            (safe_send_and_store (send_id tg) tid MainMenu s2))
               else if edit_ok tg then (returned [EditMessage NotMemberYet], s)
               else after [EditMessage NotMemberYet] (edit_message_text (edit2_ok tg) CouldNotVerify s))"

text \<open>
  \<^verbatim>\<open>
  async def main_menu_callback(update, context):
      q = update.callback_query
      await q.answer()
      await safe_send_and_store(q.from_user.id, context, f"... {BOT_NAME} ...", ...)
  \<close>
\<close>

definition main_menu_callback :: "telegram \<Rightarrow> int \<Rightarrow> bot \<Rightarrow> result \<times> bot" where
  "main_menu_callback tg tid s =
     (if \<not> answer_ok tg then (raised [] TelegramError, s)
      else safe_send_and_store (send_id tg) tid MainMenu s)"

text \<open>
  \<^verbatim>\<open>
  async def my_balance_action(update, context):
      if update.callback_query:
          tid = update.callback_query.from_user.id
          await update.callback_query.answer()
      else:
          tid = update.message.from_user.id
      if not user_is_verified(tid):
          await safe_send_and_store(tid, context, "You must verify ...", ...)
          return
      row = get_user_row(tid)
      balance = to_decimal(row["balance"]) if row else Decimal("0")
      referrals = row["referrals"] if row else 0
      wallet = row["wallet"] if row and row["wallet"] else "Not set"
      last_bonus = row["last_bonus"] if row else None
      last_text = last_bonus if last_bonus else "Never"
      text = (... format_bnb(balance) ... referrals ... wallet ... last_text ... format_bnb(MIN_WITHDRAW) ...)
      await safe_send_and_store(tid, context, text, ...)
  \<close>
\<close>

definition my_balance_action :: "config \<Rightarrow> telegram \<Rightarrow> trigger \<Rightarrow> int \<Rightarrow> bot \<Rightarrow> result \<times> bot" where
  "my_balance_action cfg tg trig tid s =
     (if trig = Callback \<and> \<not> answer_ok tg then (raised [] TelegramError, s)
      else if \<not> user_is_verified tid s then safe_send_and_store (send_id tg) tid MustVerify s
      else
        let row = get_user_row tid s;
            bal = (case row of Some r \<Rightarrow> to_decimal (balance r) | None \<Rightarrow> Dec False 0 0);
            refs = (case row of Some r \<Rightarrow> referrals r | None \<Rightarrow> 0);
            wal = (case row of
                     Some r \<Rightarrow> (case wallet r of Some w \<Rightarrow> if w = [] then ''Not set'' else w | None \<Rightarrow> ''Not set'')
                   | None \<Rightarrow> ''Not set'');
            last_text = (case row of
                           Some r \<Rightarrow> (case last_bonus r of Some l \<Rightarrow> if l = [] then ''Never'' else l | None \<Rightarrow> ''Never'')
                         | None \<Rightarrow> ''Never'')
        in case format_bnb bal of
             Inl e \<Rightarrow> (raised [] e, s)
           | Inr b \<Rightarrow>
               (case format_bnb (MIN_WITHDRAW cfg) of
                  Inl e \<Rightarrow> (raised [] e, s)
                | Inr m \<Rightarrow> safe_send_and_store (send_id tg) tid (AccountSummary b refs wal last_text m) s))"

text \<open>
  \<^verbatim>\<open>
  async def referral_action(update, context):
      tid = ...
      bot_user = await context.bot.get_me()
      ref_link = f"https://t.me/{bot_user.username}?start=ref{tid}"
      text = f"... earn {format_bnb(REF_BONUS)} per new user ... {ref_link} ..."
      await safe_send_and_store(tid, context, text, ...)
  \<close>
\<close>

definition referral_action :: "config \<Rightarrow> telegram \<Rightarrow> int \<Rightarrow> bot \<Rightarrow> result \<times> bot" where
  "referral_action cfg tg tid s =
     (case bot_username tg of
        None \<Rightarrow> (raised [] TelegramError, s)
      | Some name \<Rightarrow>
          (case format_bnb (REF_BONUS cfg) of
             Inl e \<Rightarrow> (raised [] e, s)
           | Inr b \<Rightarrow> safe_send_and_store (send_id tg) tid (ReferralLink name tid b) s))"

text \<open>
  \<^verbatim>\<open>
  async def admin_stats_cmd(update, context):
      if update.effective_user.id != ADMIN_ID:
          await update.message.reply_text("You are not authorized.")
          return
      ... four SELECTs ...
      await safe_send_and_store(ADMIN_ID, context, text)
  \<close>
  The figures of the report are not modelled.
\<close>

definition admin_stats_cmd :: "config \<Rightarrow> telegram \<Rightarrow> int \<Rightarrow> bot \<Rightarrow> result \<times> bot" where
  "admin_stats_cmd cfg tg tid s =
     (if tid \<noteq> ADMIN_ID cfg
      then (if notify_ok tg then (returned [ReplyText NotAuthorized], s)
            else (raised [ReplyText NotAuthorized] TelegramError, s))
      else safe_send_and_store (send_id tg) (ADMIN_ID cfg) AdminStats s)"

subsection \<open>Daily bonus\<close>

text \<open>
  \<^verbatim>\<open>
  async def claim_daily_action(update, context):
      if update.callback_query:
          tid = update.callback_query.from_user.id
          await update.callback_query.answer()
      else:
          tid = update.message.from_user.id
      if not user_is_verified(tid):
          await safe_send_and_store(tid, context, "You must verify ...", ...)
          return
      ensure_user(tid)
      row = get_user_row(tid)
      last = None
      if row and row["last_bonus"]:
          try:
              last = datetime.fromisoformat(row["last_bonus"])
          except Exception:
              last = None
      if last:
          diff = now_utc() - last
          if diff < timedelta(hours=24):
              remaining = timedelta(hours=24) - diff
              hours = remaining.seconds // 3600
              minutes = (remaining.seconds % 3600) // 60
              await safe_send_and_store(tid, context, f"... Try again in {hours}h {minutes}m.", ...)
              return
      add_balance(tid, to_decimal(DAILY_BONUS))
      record_last_bonus(tid, now_utc())
      await safe_send_and_store(tid, context, f"... You received {format_bnb(DAILY_BONUS)} ...", ...)
  \<close>
  The clock is read twice: \<open>now1\<close> for the cooldown test, \<open>now2\<close> for the timestamp
  stored. An empty \<^verbatim>\<open>last_bonus\<close> text is as good as none.
\<close>

definition read_last_bonus :: "pylib \<Rightarrow> user_row option \<Rightarrow> datetime option" where
  "read_last_bonus lib row =
     (case row of
        None \<Rightarrow> None
      | Some r \<Rightarrow>
          (case last_bonus r of
             None \<Rightarrow> None
           | Some txt \<Rightarrow> if txt = [] then None else fromisoformat lib txt))"

definition grant_daily :: "config \<Rightarrow> pylib \<Rightarrow> telegram \<Rightarrow> int \<Rightarrow> int \<Rightarrow> bot \<Rightarrow> result \<times> bot" where
  "grant_daily cfg lib tg tid now2 s =
     (let s1 = add_balance tid (to_decimal (DAILY_BONUS cfg)) s;
          s2 = record_last_bonus lib tid (Aware now2) s1
      in case format_bnb (DAILY_BONUS cfg) of
           Inl e \<Rightarrow> (raised [] e, s2)
         | Inr b \<Rightarrow> safe_send_and_store (send_id tg) tid (BonusReceived b) s2)"

definition claim_daily_action ::
  "config \<Rightarrow> pylib \<Rightarrow> telegram \<Rightarrow> trigger \<Rightarrow> int \<Rightarrow> int \<Rightarrow> int \<Rightarrow> bot \<Rightarrow> result \<times> bot" where
  "claim_daily_action cfg lib tg trig tid now1 now2 s =
     (if trig = Callback \<and> \<not> answer_ok tg then (raised [] TelegramError, s)
      else if \<not> user_is_verified tid s then safe_send_and_store (send_id tg) tid MustVerify s
      else
        let s1 = ensure_user tid None None s;
            row = get_user_row tid s1
        in case read_last_bonus lib row of
             None \<Rightarrow> grant_daily cfg lib tg tid now2 s1
           | Some (Naive t) \<Rightarrow> (raised [] TypeError, s1)
           | Some (Aware t) \<Rightarrow>
               (let diff = now1 - t
                in if diff < hours24
                   then
                     (let remaining = hours24 - diff;
                          hours = td_seconds remaining div 3600;
                          minutes = (td_seconds remaining mod 3600) div 60
                      in safe_send_and_store (send_id tg) tid (AlreadyClaimed hours minutes) s1)
                   else grant_daily cfg lib tg tid now2 s1))"

subsection \<open>Wallet\<close>

text \<open>
  \<^verbatim>\<open>
  async def set_wallet_prompt(update, context):
      tid = ...
      await safe_send_and_store(tid, context, "Please send your BSC (BEP-20) wallet address ...", ...)
      context.user_data["awaiting_wallet"] = True
  \<close>
\<close>

definition set_wallet_prompt :: "telegram \<Rightarrow> int \<Rightarrow> bot \<Rightarrow> result \<times> bot" where
  "set_wallet_prompt tg tid s =
     (case safe_send_and_store (send_id tg) tid WalletPrompt s of
        ((os, Some e), s1) \<Rightarrow> ((os, Some e), s1)
      | ((os, None), s1) \<Rightarrow> ((os, None), s1\<lparr>awaiting_wallet := insert tid (awaiting_wallet s1)\<rparr>))"

subsection \<open>Text messages\<close>

text \<open>
  \<^verbatim>\<open>
  async def message_handler(update, context):
      tid = update.message.from_user.id
      text = (update.message.text or "").strip()
      # admin: if admin is currently entering reject reason
      if update.effective_user.id == ADMIN_ID and ADMIN_ID in pending_rejects:
          wid = pending_rejects.pop(ADMIN_ID)
          reason = text.strip()
          w = get_withdrawal(wid)
          if not w:
              await safe_send_and_store(ADMIN_ID, context, "... Withdrawal not found or already processed.")
              return
          # mark rejected and notify user with reason
          mark_withdrawal(wid, "rejected")
          try: await context.bot.send_message(w["telegram_id"], f"... (ID {wid}) was *REJECTED* ... Reason: {reason}", ...)
          except Exception: pass
          await safe_send_and_store(ADMIN_ID, context, f"... Rejection processed for WID {wid}. User notified.")
          return
      # normal flow: awaiting wallet
      if context.user_data.get("awaiting_wallet"):
          context.user_data.pop("awaiting_wallet", None)
          if is_valid_bsc_address(text):
              set_wallet(tid, text)
              await safe_send_and_store(tid, context, f"... Wallet saved: ...", ...)
          else:
              await safe_send_and_store(tid, context, msg, ...)
          return
      # fallback
      if not user_is_verified(tid):
          await safe_send_and_store(tid, context, "You must verify ...", ...)
      else:
          await safe_send_and_store(tid, context, "Use the menu below.", ...)
  \<close>
\<close>

definition message_handler ::
  "config \<Rightarrow> pylib \<Rightarrow> telegram \<Rightarrow> int \<Rightarrow> string \<Rightarrow> bot \<Rightarrow> result \<times> bot" where
  "message_handler cfg lib tg tid text0 s =
     (let txt = strip text0
      in case (if tid = ADMIN_ID cfg then pending_rejects s (ADMIN_ID cfg) else None) of
           Some wid \<Rightarrow>
             (let s1 = s\<lparr>pending_rejects := (pending_rejects s)(ADMIN_ID cfg := None)\<rparr>;
                  reason = strip txt
              in case get_withdrawal wid s1 of
                   None \<Rightarrow> safe_send_and_store (send_id tg) (ADMIN_ID cfg) RejectNotFound s1
                 | Some w \<Rightarrow>
                     (let s2 = mark_withdrawal wid Rejected s1
                      in after [SendMessage (w_telegram_id w) (RejectedNotice wid reason)]
                           (safe_send_and_store (send_id tg) (ADMIN_ID cfg) (RejectionProcessed wid) s2)))
         | None \<Rightarrow>
             if tid \<in> awaiting_wallet s
             then
               (let s1 = s\<lparr>awaiting_wallet := awaiting_wallet s - {tid}\<rparr>
                in if is_valid_bsc_address lib txt
                   then safe_send_and_store (send_id tg) tid (WalletSaved txt) (set_wallet tid txt s1)
                   else safe_send_and_store (send_id tg) tid InvalidAddress s1)
             else if \<not> user_is_verified tid s then safe_send_and_store (send_id tg) tid MustVerify s
             else safe_send_and_store (send_id tg) tid UseMenu s)"

subsection \<open>Withdrawals\<close>

text \<open>
  \<^verbatim>\<open>
  async def withdraw_action(update, context):
      if update.callback_query:
          tid = update.callback_query.from_user.id
          await update.callback_query.answer()
      else:
          tid = update.message.from_user.id
      if not user_is_verified(tid):
          await safe_send_and_store(tid, context, "You must verify ...", ...)
          return
      ensure_user(tid)
      row = get_user_row(tid)
      balance = to_decimal(row["balance"]) if row else Decimal("0")
      wallet = row["wallet"] if row and row["wallet"] else None
      referrals = row["referrals"] if row else 0
      if balance < to_decimal(MIN_WITHDRAW):
          await safe_send_and_store(tid, context, f"... Minimum withdrawal is {format_bnb(MIN_WITHDRAW)}. Your balance: {format_bnb(balance)}", ...)
          return
      if not wallet:
          await safe_send_and_store(tid, context, "... You must set a BSC wallet first. ...", ...)
          return
      wid = create_withdrawal(tid, balance, wallet)
      admin_text = (... row['username'] or 'no_username' ... tid ... format_bnb(balance) ... wallet ... referrals ... wid)
      kb = [...]
      try:
          await context.bot.send_message(ADMIN_ID, admin_text, ...)
          await safe_send_and_store(tid, context, "... Withdrawal request submitted. ...", ...)
      except Exception as e:
          logger.exception("Failed to notify admin: %s", e)
          await safe_send_and_store(tid, context, "... Failed to send withdraw request to admin. Please try again later.", ...)
  \<close>
\<close>

definition withdraw_action ::
  "config \<Rightarrow> telegram \<Rightarrow> trigger \<Rightarrow> int \<Rightarrow> int \<Rightarrow> bot \<Rightarrow> result \<times> bot" where
  "withdraw_action cfg tg trig tid clock s =
     (if trig = Callback \<and> \<not> answer_ok tg then (raised [] TelegramError, s)
      else if \<not> user_is_verified tid s then safe_send_and_store (send_id tg) tid MustVerify s
      else
        let s1 = ensure_user tid None None s;
            row = get_user_row tid s1;
            bal = (case row of Some r \<Rightarrow> to_decimal (balance r) | None \<Rightarrow> Dec False 0 0);
            wal = (case row of
                     Some r \<Rightarrow> (case wallet r of Some w \<Rightarrow> if w = [] then None else Some w | None \<Rightarrow> None)
                   | None \<Rightarrow> None);
            refs = (case row of Some r \<Rightarrow> referrals r | None \<Rightarrow> 0);
            uname = (case row of
                       Some r \<Rightarrow> (case username r of Some u \<Rightarrow> if u = [] then ''no_username'' else u | None \<Rightarrow> ''no_username'')
                     | None \<Rightarrow> ''no_username'')
        in if dec_less bal (to_decimal (MIN_WITHDRAW cfg))
           then
             (case format_bnb (MIN_WITHDRAW cfg) of
                Inl e \<Rightarrow> (raised [] e, s1)
              | Inr m \<Rightarrow>
                  (case format_bnb bal of
                     Inl e \<Rightarrow> (raised [] e, s1)
                   | Inr b \<Rightarrow> safe_send_and_store (send_id tg) tid (MinimumWithdrawal m b) s1))
           else case wal of
                  None \<Rightarrow> safe_send_and_store (send_id tg) tid NeedWallet s1
                | Some w \<Rightarrow>
                    (case create_withdrawal tid bal w clock s1 of
                       (wid, s2) \<Rightarrow>
                         (case format_bnb bal of
                            Inl e \<Rightarrow> (raised [] e, s2)
                          | Inr b \<Rightarrow>
                              (let req = SendMessage (ADMIN_ID cfg) (WithdrawRequest uname tid b w refs wid)
                               in if \<not> notify_ok tg
                                  then after [req] (safe_send_and_store (send2_id tg) tid WithdrawFailed s2)
                                  else case send_id tg of
                                         Some mid \<Rightarrow>
                                           after [req] (safe_send_and_store (Some mid) tid WithdrawSubmitted s2)
                                       | None \<Rightarrow>
                                           after [req, SendMessage tid WithdrawSubmitted]
                                             (safe_send_and_store (send2_id tg) tid WithdrawFailed s2)))))"

text \<open>
  \<^verbatim>\<open>
  async def approve_reject_callback(update, context):
      q = update.callback_query
      await q.answer()
      operator = q.from_user.id
      if operator != ADMIN_ID:
          await q.edit_message_text("... You are not authorized to perform this action.")
          return
      data = q.data
      try:
          action, wid_s = data.split(":")
          wid = int(wid_s)
      except Exception:
          await q.edit_message_text("Invalid callback data.")
          return
      w = get_withdrawal(wid)
      if not w:
          await q.edit_message_text("... Withdrawal not found.")
          return
      if w["status"] != "pending":
          await q.edit_message_text(f"... Withdrawal already {w['status']}.")
          return
      tid = w["telegram_id"]
      amount = to_decimal(w["amount"])
      wallet = w["wallet"]
      if action == "approve":
          mark_withdrawal(wid, "approved")
          set_balance(tid, Decimal("0"))
          await q.edit_message_text(f"... Approved withdrawal ID {wid} for user {tid} ... {format_bnb(amount)}")
          try: await context.bot.send_message(tid, f"... {format_bnb(amount)} has been *APPROVED* ...", ...)
          except Exception: pass
      else:
          # start rejection flow: ask admin to type reason in private chat; store mapping
          pending_rejects[ADMIN_ID] = wid
          await q.edit_message_text(f"... Please type the rejection reason now. ... (WID {wid}).")
          return
  \<close>
\<close>

definition parse_callback :: "string \<Rightarrow> (string \<times> int) option" where
  "parse_callback data =
     (case split_on CHR '':'' data of
        [action, wid_s] \<Rightarrow> (case py_int wid_s of Some wid \<Rightarrow> Some (action, wid) | None \<Rightarrow> None)
      | _ \<Rightarrow> None)"

definition approve_reject_callback ::
  "config \<Rightarrow> telegram \<Rightarrow> int \<Rightarrow> string \<Rightarrow> bot \<Rightarrow> result \<times> bot" where
  "approve_reject_callback cfg tg operator data s =
     (if \<not> answer_ok tg then (raised [] TelegramError, s)
      else if operator \<noteq> ADMIN_ID cfg then edit_message_text (edit_ok tg) NotAuthorized s
      else case parse_callback data of
             None \<Rightarrow> edit_message_text (edit_ok tg) InvalidCallback s
           | Some (action, wid) \<Rightarrow>
               (case get_withdrawal wid s of
                  None \<Rightarrow> edit_message_text (edit_ok tg) WithdrawalNotFound s
                | Some w \<Rightarrow>
                    if w_status w \<noteq> Pending
                    then edit_message_text (edit_ok tg) (WithdrawalAlready (w_status w)) s
                    else
                      let tid = w_telegram_id w;
                          amount = to_decimal (w_amount w)
                      in if action = ''approve''
                         then
                           (let s1 = mark_withdrawal wid Approved s;
                                s2 = set_balance tid dec_zero s1
                            in case format_bnb amount of
                                 Inl e \<Rightarrow> (raised [] e, s2)
                               | Inr a \<Rightarrow>
                                   if edit_ok tg
                                   then (returned [EditMessage (ApprovedEdit wid tid a),
                                                   SendMessage tid (ApprovedNotice a)], s2)
                                   else (raised [EditMessage (ApprovedEdit wid tid a)] TelegramError, s2))
                         else
                           edit_message_text (edit_ok tg) (TypeReason wid)
                             (s\<lparr>pending_rejects := (pending_rejects s)(ADMIN_ID cfg \<mapsto> wid)\<rparr>)))"

subsection \<open>The bot as a transition system\<close>

text \<open>
  One \<open>event\<close> for each handler that \<^verbatim>\<open>main()\<close> registers, with what the update and the
  clocks supply; \<open>step\<close> runs the handler of an event, \<open>run\<close> a sequence of events, each
  with the answers of Telegram during it.
\<close>

datatype event =
    Start int "string option" "string list"
  | CheckBoth int
  | MainMenuPressed int
  | MyBalance trigger int
  | ClaimDaily trigger int int int
  | ReferralPressed int
  | SetWallet int
  | TextMessage int string
  | Withdraw trigger int int
  | ApproveReject int string
  | AdminStatsCmd int

fun step :: "config \<Rightarrow> pylib \<Rightarrow> telegram \<Rightarrow> event \<Rightarrow> bot \<Rightarrow> result \<times> bot" where
  "step cfg lib tg (Start tid uname args) s = start_cmd cfg tg tid uname args s"
| "step cfg lib tg (CheckBoth tid) s = check_both_callback tg tid s"
| "step cfg lib tg (MainMenuPressed tid) s = main_menu_callback tg tid s"
| "step cfg lib tg (MyBalance trig tid) s = my_balance_action cfg tg trig tid s"
| "step cfg lib tg (ClaimDaily trig tid now1 now2) s = claim_daily_action cfg lib tg trig tid now1 now2 s"
| "step cfg lib tg (ReferralPressed tid) s = referral_action cfg tg tid s"
| "step cfg lib tg (SetWallet tid) s = set_wallet_prompt tg tid s"
| "step cfg lib tg (TextMessage tid txt) s = message_handler cfg lib tg tid txt s"
| "step cfg lib tg (Withdraw trig tid clock) s = withdraw_action cfg tg trig tid clock s"
| "step cfg lib tg (ApproveReject operator data) s = approve_reject_callback cfg tg operator data s"
| "step cfg lib tg (AdminStatsCmd tid) s = admin_stats_cmd cfg tg tid s"

fun run :: "config \<Rightarrow> pylib \<Rightarrow> (telegram \<times> event) list \<Rightarrow> bot \<Rightarrow> bot" where
  "run cfg lib [] s = s"
| "run cfg lib ((tg, ev) # evs) s = run cfg lib evs (snd (step cfg lib tg ev s))"

section \<open>Reading a displayed amount\<close>

text \<open>
  To state what \<^verbatim>\<open>format_bnb\<close> displays: \<open>trunc_places k x\<close> is \<open>x\<close> cut after \<open>k\<close>
  decimal places, toward zero; \<open>fixed_value\<close> reads a text of the form
  \<^verbatim>\<open>[-]digits[.digits]\<close> as the number it denotes (\<open>None\<close> for any other text);
  \<open>display_value\<close> does so for the text before the unit \<^verbatim>\<open>BNB\<close>, and
  \<open>display_places\<close> counts the digits after the point there.
\<close>

definition trunc_places :: "nat \<Rightarrow> rat \<Rightarrow> rat" where
  "trunc_places k x =
     (if 0 \<le> x then of_int \<lfloor>x * 10 ^ k\<rfloor> / 10 ^ k else - (of_int \<lfloor>- x * 10 ^ k\<rfloor> / 10 ^ k))"

definition is_digits :: "string \<Rightarrow> bool" where
  "is_digits s = (s \<noteq> [] \<and> list_all isdigit s)"

definition fixed_value :: "string \<Rightarrow> rat option" where
  "fixed_value s =
     (let neg = (s \<noteq> [] \<and> hd s = CHR ''-'');
          body = (if neg then tl s else s);
          ip = takeWhile (\<lambda>c. c \<noteq> CHR ''.'') body;
          rest = dropWhile (\<lambda>c. c \<noteq> CHR ''.'') body;
          fp = (if rest = [] then [] else tl rest)
      in if is_digits ip \<and> (rest = [] \<or> is_digits fp)
         then Some ((if neg then - 1 else 1) * of_nat (digits_val (ip @ fp)) / 10 ^ length fp)
         else None)"

definition display_value :: "string \<Rightarrow> rat option" where
  "display_value txt =
     (if drop (length txt - 4) txt = '' BNB'' then fixed_value (take (length txt - 4) txt) else None)"

definition display_places :: "string \<Rightarrow> nat" where
  "display_places txt =
     length (dropWhile (\<lambda>c. c \<noteq> CHR ''.'') (take (length txt - 4) txt)) - 1"

section \<open>Example data\<close>

text \<open>
  A configuration with the defaults of \<^verbatim>\<open>bot.py\<close> (referral bonus 0.01, daily bonus
  0.001, minimum withdrawal 0.5) and operator 1; a Telegram that answers every call; and
  a verified user 7 with balance 0.5 and a payout address.
\<close>

definition cfg0 :: config where
  "cfg0 = \<lparr>ADMIN_ID = 1, REF_BONUS = Dec False 1 (- 2), DAILY_BONUS = Dec False 1 (- 3),
            MIN_WITHDRAW = Dec False 5 (- 1)\<rparr>"

definition tg_ok :: telegram where
  "tg_ok = \<lparr>answer_ok = True, edit_ok = True, edit2_ok = True, send_id = Some 100,
             send2_id = Some 101, notify_ok = True, member_status = Some ''member'',
             bot_username = Some ''bnb_bot''\<rparr>"

definition addr0 :: string where
  "addr0 = ''0x5aAeb6053F3E94C9b9A09f33669435E7Ef1BeAed''"

definition user7 :: user_row where
  "user7 = \<lparr>username = Some ''alice'', balance = Dec False 5 (- 1), referrals = 0,
             referred_by = None, wallet = Some addr0, last_bonus = None,
             joined_channel = 1, subscribed_yt = 1, last_bot_message_id = None\<rparr>"

definition bot7 :: bot where
  "bot7 = empty_bot\<lparr>users := [7 \<mapsto> user7]\<rparr>"

text \<open>The columns of a \<^verbatim>\<open>users\<close> row other than \<^verbatim>\<open>last_bot_message_id\<close>, the
  bookkeeping of \<^verbatim>\<open>safe_send_and_store\<close>.\<close>

definition ledger_fields ::
  "user_row \<Rightarrow> string option \<times> decimal \<times> int \<times> int option \<times> string option \<times> string option \<times> int \<times> int" where
  "ledger_fields r = (username r, balance r, referrals r, referred_by r, wallet r, last_bonus r,
     joined_channel r, subscribed_yt r)"

text \<open>User 8 has balance 0.1, below the minimum; user 9 has the minimum but no address.\<close>

definition user8 :: user_row where
  "user8 = user7\<lparr>username := Some ''bob'', balance := Dec False 1 (- 1)\<rparr>"

definition user9 :: user_row where
  "user9 = user7\<lparr>username := None, wallet := None\<rparr>"

definition bot89 :: bot where
  "bot89 = empty_bot\<lparr>users := [8 \<mapsto> user8, 9 \<mapsto> user9]\<rparr>"

text \<open>A row after the daily bonus was granted at clock reading \<open>now2\<close>.\<close>

definition granted_row :: "config \<Rightarrow> pylib \<Rightarrow> int \<Rightarrow> user_row \<Rightarrow> user_row" where
  "granted_row cfg lib now2 r =
     r\<lparr>balance := dec_add (balance r) (DAILY_BONUS cfg),
       last_bonus := Some (isoformat lib (Aware now2))\<rparr>"

text \<open>
  The values of the library functions at the arguments the examples use: the instant
  2024-01-01T00:00:00 UTC is 1704067200 seconds after the epoch, a text without offset
  parses to a naive datetime, \<^verbatim>\<open>yesterday\<close> is no ISO text, and the checksum form of the
  address \<open>addr0\<close> (an example of EIP-55) is \<open>addr0\<close> itself, whatever the case of the
  letters given. At other arguments the table says nothing.
\<close>

definition jan1 :: int where
  "jan1 = 1704067200000000"

definition lib0 :: pylib where
  "lib0 = \<lparr>fromisoformat =
              (\<lambda>s. if s = ''2024-01-01T00:00:00+00:00'' then Some (Aware jan1)
                   else if s = ''2024-01-01T00:00:00'' then Some (Naive jan1)
                   else None),
            isoformat = (\<lambda>d. if d = Aware jan1 then ''2024-01-01T00:00:00+00:00'' else []),
            to_checksum_address =
              Some (\<lambda>a. if lower a = ''0x5aaeb6053f3e94c9b9a09f33669435e7ef1beaed''
                         then Some addr0 else None)\<rparr>"

text \<open>User 10 is verified, has balance 0 and never claimed; user 11 is user 10 with a
  \<^verbatim>\<open>last_bonus\<close> text that is no timestamp.\<close>

definition user10 :: user_row where
  "user10 = \<lparr>username = Some ''carol'', balance = Dec False 0 0, referrals = 0,
              referred_by = None, wallet = None, last_bonus = None,
              joined_channel = 1, subscribed_yt = 1, last_bot_message_id = None\<rparr>"

definition user11 :: user_row where
  "user11 = user10\<lparr>last_bonus := Some ''yesterday''\<rparr>"

definition bot10 :: bot where
  "bot10 = empty_bot\<lparr>users := [10 \<mapsto> user10, 11 \<mapsto> user11]\<rparr>"

text \<open>User 12 claimed at 2024-01-01T00:00:00 UTC and holds 0.001.\<close>

definition user12 :: user_row where
  "user12 = user10\<lparr>balance := Dec False 1 (- 3), last_bonus := Some ''2024-01-01T00:00:00+00:00''\<rparr>"

definition bot12 :: bot where
  "bot12 = empty_bot\<lparr>users := [12 \<mapsto> user12]\<rparr>"

text \<open>The pending request 1 of user 7, and the storage after user 7 requested it.\<close>

definition wd1 :: withdrawal_row where
  "wd1 = \<lparr>w_telegram_id = 7, w_amount = Dec False 5 (- 1), w_wallet = addr0,
           w_status = Pending, w_created_at = 1000\<rparr>"

definition bot7w :: bot where
  "bot7w = bot7\<lparr>users := [7 \<mapsto> user7\<lparr>last_bot_message_id := Some 100\<rparr>],
                withdrawals := [1 \<mapsto> wd1], wid_seq := 1\<rparr>"

text \<open>The address \<open>addr0\<close> with the case of its first letter flipped.\<close>

definition addr_flipped :: string where
  "addr_flipped = ''0x5AAeb6053F3E94C9b9A09f33669435E7Ef1BeAed''"

text \<open>No stored balance is negative.\<close>

definition balances_nonneg :: "bot \<Rightarrow> bool" where
  "balances_nonneg s = (\<forall>tid r. users s tid = Some r \<longrightarrow> 0 \<le> dec_val (balance r))"

section \<open>Properties\<close>

lemmas db_defs = get_user_row_def ensure_user_def new_row_def update_user_def add_balance_def set_balance_def
  inc_referrals_def set_wallet_def record_last_bonus_def set_joined_flag_def set_subscribed_flag_def
  create_withdrawal_def get_withdrawal_def mark_withdrawal_def user_is_verified_def
  save_last_bot_message_def to_decimal_def

lemmas io_defs = safe_send_and_store_def edit_message_text_def returned_def raised_def after_def

subsection \<open>Evaluation on the example data\<close>

lemmas dec_eval = format_bnb_def quantize_down_def DECIMALS_DISPLAY_def adjusted_def ndigits_def
  digits10.simps digit_char_def prec_def rescale_down_def dec_fix_def normalize_dec_def
  strip_zeros.simps format_f_def dec_less_def dec_add_def exact_sum_def signed_coeff_def Let_def

lemmas str_eval = parse_callback_def py_int_def strip_def isspace_def isdigit_def digits_val_def
  digit_val_def parse_ref_arg_def startswith_def Let_def

lemma digits10_small: "digits10 0 = ''0''" "digits10 (Suc 0) = ''1''"
  by (simp_all add: digits10.simps [of 0] digits10.simps [of "Suc 0"] digit_char_def)

lemma replicate_2: "replicate 2 x = [x, x]"
  by (simp add: numeral_2_eq_2)

lemma format_bnb_tenth: "format_bnb (Dec False 1 (- 1)) = Inr ''0.1 BNB''"
  by (simp add: dec_eval digits10_small)

lemma format_bnb_daily: "format_bnb (Dec False 1 (- 3)) = Inr ''0.001 BNB''"
  by (simp add: dec_eval digits10_small replicate_2)

lemma dec_add_examples:
  "dec_add (Dec False 0 0) (Dec False 1 (- 3)) = Dec False 1 (- 3)"
  "dec_add (Dec False 1 (- 3)) (Dec False 1 (- 3)) = Dec False 2 (- 3)"
  by (simp_all add: dec_eval digits10_small)

lemma format_bnb_ref: "format_bnb (Dec False 1 (- 2)) = Inr ''0.01 BNB''"
  by (simp add: dec_eval digits10_small replicate_2)

lemma dec_add_ref:
  "dec_add (Dec False 0 0) (Dec False 1 (- 2)) = Dec False 1 (- 2)"
  "dec_add (Dec False 1 (- 2)) (Dec False 1 (- 2)) = Dec False 2 (- 2)"
  by (simp_all add: dec_eval digits10_small)

lemma parse_callback_reject_1: "parse_callback ''reject:1'' = Some (''reject'', 1)"
  by (simp add: str_eval)

lemma parse_ref5: "parse_ref_arg [''ref5''] = Some 5"
  by (simp add: str_eval)

lemma format_bnb_half: "format_bnb (Dec False 5 (- 1)) = Inr ''0.5 BNB''"
  by (simp add: dec_eval)

lemma parse_callback_approve_1: "parse_callback ''approve:1'' = Some (''approve'', 1)"
  by (simp add: str_eval)

lemma withdraw_bot7:
  "snd (withdraw_action cfg0 tg_ok Command 7 1000 bot7) =
     bot7\<lparr>users := [7 \<mapsto> user7\<lparr>last_bot_message_id := Some 100\<rparr>],
          withdrawals := [1 \<mapsto> \<lparr>w_telegram_id = 7, w_amount = Dec False 5 (- 1), w_wallet = addr0,
                                 w_status = Pending, w_created_at = 1000\<rparr>],
          wid_seq := 1\<rparr>"
  by (simp add: withdraw_action_def cfg0_def tg_ok_def bot7_def user7_def empty_bot_def db_defs
      io_defs format_bnb_half dec_less_def addr0_def Let_def)

subsection \<open>Decimal digits\<close>

lemma digit_char_props:
  assumes "k < 10"
  shows "isdigit (digit_char k)" and "digit_val (digit_char k) = k"
    and "digit_char k \<noteq> CHR ''.''" and "digit_char k \<noteq> CHR ''-''"
proof -
  from assms have "k = 0 \<or> k = 1 \<or> k = 2 \<or> k = 3 \<or> k = 4 \<or> k = 5 \<or> k = 6 \<or> k = 7 \<or> k = 8 \<or> k = 9"
    by arith
  then show "isdigit (digit_char k)" and "digit_val (digit_char k) = k"
    and "digit_char k \<noteq> CHR ''.''" and "digit_char k \<noteq> CHR ''-''"
    by (auto simp: digit_char_def isdigit_def digit_val_def)
qed

lemma digits10_nonempty: "digits10 n \<noteq> []"
  by (subst digits10.simps) simp

lemma digits10_isdigit: "c \<in> set (digits10 n) \<Longrightarrow> isdigit c"
proof (induction n arbitrary: c rule: digits10.induct)
  case (1 n)
  show ?case
  proof (cases "n < 10")
    case True
    with "1.prems" show ?thesis
      by (subst (asm) digits10.simps) (simp add: digit_char_props)
  next
    case False
    with "1.prems" "1.IH" show ?thesis
      by (subst (asm) digits10.simps) (auto simp: digit_char_props)
  qed
qed

lemma horner_step: "10 * (a * p + q) + d = a * (10 * p) + (10 * q + d)" for a p q d :: nat
  by (simp add: distrib_left)

lemma foldl_digits:
  "foldl (\<lambda>a c. 10 * a + digit_val c) a ys
     = a * 10 ^ length ys + foldl (\<lambda>a c. 10 * a + digit_val c) 0 ys"
proof (induction ys rule: rev_induct)
  case Nil
  show ?case by simp
next
  case (snoc y ys)
  show ?case
    unfolding foldl_append foldl_Cons foldl_Nil length_append list.size snoc.IH
    by (simp add: horner_step)
qed

lemma digits_val_append: "digits_val (xs @ ys) = digits_val xs * 10 ^ length ys + digits_val ys"
  unfolding digits_val_def foldl_append by (rule foldl_digits)

lemma digits_val_single: "digits_val [c] = digit_val c"
  by (simp add: digits_val_def)

lemma digits_val_digits10: "digits_val (digits10 n) = n"
proof (induction n rule: digits10.induct)
  case (1 n)
  show ?case
  proof (cases "n < 10")
    case True
    then show ?thesis
      by (subst digits10.simps) (simp add: digits_val_single digit_char_props)
  next
    case False
    then have "digits_val (digits10 n) = digits_val (digits10 (n div 10)) * 10 + n mod 10"
      by (subst digits10.simps) (simp add: digits_val_append digits_val_single digit_char_props)
    with False "1.IH" show ?thesis by simp
  qed
qed

lemma digits_val_zeros: "digits_val (replicate k CHR ''0'') = 0"
  by (induction k) (simp_all add: digits_val_def digit_val_def)

lemma digits_val_zeros_append: "digits_val (replicate k CHR ''0'' @ xs) = digits_val xs"
  by (simp add: digits_val_append digits_val_zeros)

lemma ndigits_pos: "0 < ndigits n"
  by (simp add: ndigits_def digits10_nonempty)

lemma ndigits_rec: "ndigits n = (if n < 10 then 1 else Suc (ndigits (n div 10)))"
  unfolding ndigits_def by (subst digits10.simps) simp

lemma less_pow_ndigits: "n < 10 ^ ndigits n"
proof (induction n rule: digits10.induct)
  case (1 n)
  show ?case
  proof (cases "n < 10")
    case True
    then show ?thesis by (subst ndigits_rec) simp
  next
    case False
    with "1.IH" have "n div 10 < 10 ^ ndigits (n div 10)" by simp
    then have "n < 10 * 10 ^ ndigits (n div 10)" by (simp add: div_less_iff_less_mult mult.commute)
    with False show ?thesis by (subst ndigits_rec) simp
  qed
qed

lemma pow_ndigits_le: "n \<noteq> 0 \<Longrightarrow> 10 ^ (ndigits n - 1) \<le> n"
proof (induction n rule: digits10.induct)
  case (1 n)
  show ?case
  proof (cases "n < 10")
    case True
    with "1.prems" show ?thesis by (subst ndigits_rec) simp
  next
    case False
    then have nz: "n div 10 \<noteq> 0" by simp
    with "1.IH" False have "10 ^ (ndigits (n div 10) - 1) \<le> n div 10" by simp
    then have "10 * 10 ^ (ndigits (n div 10) - 1) \<le> n" by (simp add: less_eq_div_iff_mult_less_eq mult.commute)
    moreover have "10 * 10 ^ (ndigits (n div 10) - 1) = (10::nat) ^ ndigits (n div 10)"
      using ndigits_pos [of "n div 10"] by (cases "ndigits (n div 10)") simp_all
    ultimately show ?thesis using False by (subst ndigits_rec) simp
  qed
qed

lemma ndigits_le_iff: "0 < k \<Longrightarrow> ndigits n \<le> k \<longleftrightarrow> n < 10 ^ k"
proof
  assume "0 < k" and "ndigits n \<le> k"
  then have "(10::nat) ^ ndigits n \<le> 10 ^ k" by (simp add: power_increasing)
  with less_pow_ndigits [of n] show "n < 10 ^ k" by (rule less_le_trans)
next
  assume k: "0 < k" and l: "n < 10 ^ k"
  show "ndigits n \<le> k"
  proof (cases "n = 0")
    case True
    then show ?thesis using k by (subst ndigits_rec) simp
  next
    case False
    from pow_ndigits_le [OF False] l have "(10::nat) ^ (ndigits n - 1) < 10 ^ k" by (rule le_less_trans)
    then have "ndigits n - 1 < k" by (simp add: power_strict_increasing_iff)
    then show ?thesis by simp
  qed
qed

subsection \<open>Decimal addition\<close>

lemma dec_fix_small: "ndigits (dcoeff d) \<le> prec \<Longrightarrow> dec_fix d = d"
  by (simp add: dec_fix_def)

lemma dec_val_signed: "dec_val d = of_int (signed_coeff d) * 10 powi dexp d"
  by (simp add: dec_val_def signed_coeff_def)

lemma exact_sum_val:
  "(of_int (exact_sum a b) * 10 powi min (dexp a) (dexp b) :: rat) = dec_val a + dec_val b"
proof -
  let ?e = "min (dexp a) (dexp b)"
  have sh: "(of_int (c * 10 ^ nat (x - ?e)) * 10 powi ?e :: rat) = of_int c * 10 powi x"
    if "?e \<le> x" for c x
  proof -
    have "(10::rat) ^ nat (x - ?e) = 10 powi (x - ?e)" using that by (simp add: power_int_def)
    then have "(of_int (c * 10 ^ nat (x - ?e)) * 10 powi ?e :: rat)
        = of_int c * (10 powi (x - ?e) * 10 powi ?e)" by simp
    also have "10 powi (x - ?e) * 10 powi ?e = (10::rat) powi (x - ?e + ?e)"
      by (rule power_int_add [symmetric]) simp
    finally show ?thesis by simp
  qed
  have "(of_int (exact_sum a b) * 10 powi ?e :: rat)
      = of_int (signed_coeff a * 10 ^ nat (dexp a - ?e)) * 10 powi ?e
        + of_int (signed_coeff b * 10 ^ nat (dexp b - ?e)) * 10 powi ?e"
    by (simp add: exact_sum_def Let_def distrib_right)
  also have "\<dots> = of_int (signed_coeff a) * 10 powi dexp a + of_int (signed_coeff b) * 10 powi dexp b"
    by (simp only: sh [of "dexp a"] sh [of "dexp b"] min.cobounded1 min.cobounded2)
  finally show ?thesis by (simp add: dec_val_signed)
qed

lemma dec_add_val:
  assumes "ndigits (nat \<bar>exact_sum a b\<bar>) \<le> prec"
  shows "dec_val (dec_add a b) = dec_val a + dec_val b"
proof -
  let ?e = "min (dexp a) (dexp b)"
  let ?s = "exact_sum a b"
  let ?sg = "if dcoeff a = 0 \<and> dcoeff b = 0 then dsign a \<and> dsign b else ?s < 0"
  have z: "dcoeff a = 0 \<and> dcoeff b = 0 \<Longrightarrow> ?s = 0"
    by (simp add: exact_sum_def signed_coeff_def)
  have "dec_add a b = Dec ?sg (nat \<bar>?s\<bar>) ?e"
    unfolding dec_add_def Let_def by (rule dec_fix_small) (simp add: assms)
  then have "dec_val (dec_add a b) = (if ?sg then - 1 else 1) * of_nat (nat \<bar>?s\<bar>) * 10 powi ?e"
    by (simp add: dec_val_def)
  also have "(if ?sg then - 1 else 1) * (of_nat (nat \<bar>?s\<bar>) :: rat) = of_int ?s"
    using z by (auto simp: of_nat_nat)
  finally show ?thesis by (simp add: exact_sum_val)
qed

subsection \<open>Approval\<close>

text \<open>
  C5. When the operator approves a pending withdrawal request (the callback is answered
  and its data reads \<^verbatim>\<open>approve:<id>\<close>), the request's status becomes approved and the
  balance of the requesting user becomes the literal \<^verbatim>\<open>Decimal("0")\<close>, whatever the
  balance was and whatever amount the request had snapshotted: the balance is reset, not
  debited.
\<close>

theorem approve_sets_status_and_zero_balance:
  assumes "answer_ok tg" and "operator = ADMIN_ID cfg"
    and "parse_callback data = Some (''approve'', wid)"
    and "get_withdrawal wid s = Some w" and "w_status w = Pending"
  shows "map_option w_status
           (get_withdrawal wid (snd (approve_reject_callback cfg tg operator data s))) = Some Approved
       \<and> map_option balance
           (get_user_row (w_telegram_id w) (snd (approve_reject_callback cfg tg operator data s)))
         = Some (Dec False 0 0)"
  using assms
  by (auto simp: approve_reject_callback_def db_defs io_defs dec_zero_def Let_def
      split: option.splits sum.splits)

text \<open>
  The scenario of the claim: user 7 has balance 0.5, the minimum, and an address; the
  withdrawal request creates the pending row 1 with amount 0.5 and leaves the balance at
  0.5; the operator approves, the row is approved and the balance is 0.
\<close>

theorem approve_scenario:
  "map_option balance (get_user_row 7 bot7) = Some (Dec False 5 (- 1))
   \<and> get_withdrawal 1 (snd (withdraw_action cfg0 tg_ok Command 7 1000 bot7))
       = Some \<lparr>w_telegram_id = 7, w_amount = Dec False 5 (- 1), w_wallet = addr0,
                w_status = Pending, w_created_at = 1000\<rparr>
   \<and> map_option balance (get_user_row 7 (snd (withdraw_action cfg0 tg_ok Command 7 1000 bot7)))
       = Some (Dec False 5 (- 1))
   \<and> map_option w_status
        (get_withdrawal 1 (snd (approve_reject_callback cfg0 tg_ok 1 ''approve:1''
           (snd (withdraw_action cfg0 tg_ok Command 7 1000 bot7))))) = Some Approved
   \<and> map_option balance
        (get_user_row 7 (snd (approve_reject_callback cfg0 tg_ok 1 ''approve:1''
           (snd (withdraw_action cfg0 tg_ok Command 7 1000 bot7))))) = Some (Dec False 0 0)"
proof -
  let ?s1 = "snd (withdraw_action cfg0 tg_ok Command 7 1000 bot7)"
  let ?w = "\<lparr>w_telegram_id = 7, w_amount = Dec False 5 (- 1), w_wallet = addr0,
             w_status = Pending, w_created_at = 1000\<rparr>"
  have b0: "map_option balance (get_user_row 7 bot7) = Some (Dec False 5 (- 1))"
    by (simp add: bot7_def user7_def get_user_row_def)
  have w1: "get_withdrawal 1 ?s1 = Some ?w"
    by (simp add: withdraw_bot7 get_withdrawal_def)
  have b1: "map_option balance (get_user_row 7 ?s1) = Some (Dec False 5 (- 1))"
    by (simp add: withdraw_bot7 get_user_row_def user7_def)
  have a: "answer_ok tg_ok" and o: "(1::int) = ADMIN_ID cfg0" and p: "w_status ?w = Pending"
    by (simp_all add: tg_ok_def cfg0_def)
  from approve_sets_status_and_zero_balance [OF a o parse_callback_approve_1 w1 p] b0 w1 b1
  show ?thesis by simp
qed

subsection \<open>Withdrawal requests\<close>

text \<open>
  C7. A withdrawal request that passes the checks (verified user, balance not below the
  minimum, an address set) leaves every column of the requesting user's row as it was,
  the balance among them, except possibly \<^verbatim>\<open>last_bot_message_id\<close>, which
  \<^verbatim>\<open>safe_send_and_store\<close> sets to the id of the confirmation message; the rows of the
  other users are untouched; and the withdrawals table gains exactly one row, under the
  next id, pending, holding the user's id and the balance and address read from the row.
  This holds whatever Telegram answers after the insertion.
\<close>

theorem withdraw_request_keeps_user_row:
  assumes "user_is_verified tid s" and "get_user_row tid s = Some r"
    and "trig = Callback \<longrightarrow> answer_ok tg"
    and "\<not> dec_less (balance r) (MIN_WITHDRAW cfg)" and "wallet r = Some a" and "a \<noteq> []"
  shows "map_option ledger_fields (get_user_row tid (snd (withdraw_action cfg tg trig tid clock s)))
           = Some (ledger_fields r)
       \<and> map_option balance (get_user_row tid (snd (withdraw_action cfg tg trig tid clock s)))
           = Some (balance r)
       \<and> (\<forall>u. u \<noteq> tid \<longrightarrow>
             get_user_row u (snd (withdraw_action cfg tg trig tid clock s)) = get_user_row u s)
       \<and> withdrawals (snd (withdraw_action cfg tg trig tid clock s))
           = (withdrawals s)(wid_seq s + 1 \<mapsto>
               \<lparr>w_telegram_id = tid, w_amount = balance r, w_wallet = a,
                w_status = Pending, w_created_at = clock\<rparr>)"
  using assms
  by (auto simp: withdraw_action_def db_defs io_defs Let_def ledger_fields_def
      split: option.splits sum.splits)

theorem withdraw_request_example:
  "map_option ledger_fields (get_user_row 7 (snd (withdraw_action cfg0 tg_ok Command 7 1000 bot7)))
     = Some (ledger_fields user7)
   \<and> map_option balance (get_user_row 7 (snd (withdraw_action cfg0 tg_ok Command 7 1000 bot7)))
     = Some (Dec False 5 (- 1))
   \<and> withdrawals (snd (withdraw_action cfg0 tg_ok Command 7 1000 bot7))
     = [1 \<mapsto> \<lparr>w_telegram_id = 7, w_amount = Dec False 5 (- 1), w_wallet = addr0,
                w_status = Pending, w_created_at = 1000\<rparr>]"
proof -
  have v: "user_is_verified 7 bot7" and r: "get_user_row 7 bot7 = Some user7"
    by (simp_all add: bot7_def user7_def user_is_verified_def get_user_row_def)
  have t: "Command = Callback \<longrightarrow> answer_ok tg_ok" by simp
  have l: "\<not> dec_less (balance user7) (MIN_WITHDRAW cfg0)"
    by (simp add: user7_def cfg0_def dec_less_def)
  have w: "wallet user7 = Some addr0" "addr0 \<noteq> []"
    by (simp_all add: user7_def addr0_def)
  from withdraw_request_keeps_user_row [OF v r t l w, of 1000]
  show ?thesis by (simp add: bot7_def empty_bot_def user7_def)
qed

subsection \<open>Daily bonus\<close>

lemma grant_daily_row:
  assumes "get_user_row tid s = Some r"
  shows "map_option ledger_fields (get_user_row tid (snd (grant_daily cfg lib tg tid now2 s)))
           = Some (ledger_fields (granted_row cfg lib now2 r))"
  using assms
  by (auto simp: grant_daily_def db_defs io_defs Let_def ledger_fields_def granted_row_def
      split: option.splits sum.splits)

lemma grant_daily_verified:
  assumes "user_is_verified tid s"
  shows "user_is_verified tid (snd (grant_daily cfg lib tg tid now2 s))"
  using assms
  by (auto simp: grant_daily_def db_defs io_defs Let_def split: option.splits sum.splits)

lemma grant_daily_outs:
  assumes "format_bnb (DAILY_BONUS cfg) = Inr b"
  shows "fst (fst (grant_daily cfg lib tg tid now2 s)) = [SendMessage tid (BonusReceived b)]"
  using assms
  by (auto simp: grant_daily_def io_defs Let_def split: option.splits)

lemma claim_absent:
  assumes "user_is_verified tid s" and "trig = Callback \<longrightarrow> answer_ok tg"
    and "get_user_row tid s = Some r" and "read_last_bonus lib (Some r) = None"
  shows "claim_daily_action cfg lib tg trig tid now1 now2 s = grant_daily cfg lib tg tid now2 s"
  using assms
  by (auto simp: claim_daily_action_def get_user_row_def ensure_user_def user_is_verified_def Let_def)

lemma claim_elapsed:
  assumes "user_is_verified tid s" and "trig = Callback \<longrightarrow> answer_ok tg"
    and "get_user_row tid s = Some r" and "read_last_bonus lib (Some r) = Some (Aware t)"
    and "hours24 \<le> now1 - t"
  shows "claim_daily_action cfg lib tg trig tid now1 now2 s = grant_daily cfg lib tg tid now2 s"
  using assms
  by (auto simp: claim_daily_action_def get_user_row_def ensure_user_def user_is_verified_def Let_def)

lemma claim_cooldown:
  assumes "user_is_verified tid s" and "trig = Callback \<longrightarrow> answer_ok tg"
    and "get_user_row tid s = Some r" and "read_last_bonus lib (Some r) = Some (Aware t)"
    and "now1 - t < hours24"
  shows "claim_daily_action cfg lib tg trig tid now1 now2 s =
           safe_send_and_store (send_id tg) tid
             (AlreadyClaimed (td_seconds (hours24 - (now1 - t)) div 3600)
                             ((td_seconds (hours24 - (now1 - t)) mod 3600) div 60)) s"
  using assms
  by (auto simp: claim_daily_action_def get_user_row_def ensure_user_def user_is_verified_def Let_def)

lemma safe_send_ledger:
  assumes "get_user_row tid s = Some r"
  shows "map_option ledger_fields (get_user_row tid (snd (safe_send_and_store sent c msg s)))
           = Some (ledger_fields r)"
  using assms
  by (auto simp: db_defs io_defs ledger_fields_def split: option.splits)

lemma safe_send_outs: "fst (fst (safe_send_and_store sent c msg s)) = [SendMessage c msg]"
  by (simp add: io_defs split: option.splits)

lemma hm_of_seconds:
  fixes x :: int
  assumes "0 \<le> x" and "x < 86400"
  shows "3600 * (x div 3600) + 60 * ((x mod 3600) div 60) \<le> x"
    and "x < 3600 * (x div 3600) + 60 * ((x mod 3600) div 60) + 60"
    and "x div 3600 < 24"
proof -
  define y where "y = x mod 3600"
  have x: "x = 3600 * (x div 3600) + y" by (simp add: y_def)
  have y: "y = 60 * (y div 60) + y mod 60" by simp
  have m: "0 \<le> y mod 60" "y mod 60 < 60" by simp_all
  show "3600 * (x div 3600) + 60 * ((x mod 3600) div 60) \<le> x"
    unfolding y_def[symmetric] using x y m by linarith
  show "x < 3600 * (x div 3600) + 60 * ((x mod 3600) div 60) + 60"
    unfolding y_def[symmetric] using x y m by linarith
  show "x div 3600 < 24" using assms by (simp add: div_less_iff_less_mult)
qed

lemma remaining_hm:
  fixes d :: int
  assumes "0 < d" and "d < hours24"
  shows "3600 * (td_seconds (hours24 - d) div 3600) + 60 * ((td_seconds (hours24 - d) mod 3600) div 60)
           \<le> (hours24 - d) div 1000000
       \<and> (hours24 - d) div 1000000
           < 3600 * (td_seconds (hours24 - d) div 3600) + 60 * ((td_seconds (hours24 - d) mod 3600) div 60) + 60
       \<and> td_seconds (hours24 - d) div 3600 < 24"
proof -
  define x where "x = (hours24 - d) div 1000000"
  have x0: "0 \<le> x" using assms by (simp add: x_def hours24_def)
  have "hours24 - d < 86400 * 1000000" using assms by (simp add: hours24_def)
  then have x1: "x < 86400" unfolding x_def by (simp add: div_less_iff_less_mult)
  have t: "td_seconds (hours24 - d) = x" using x0 x1 by (simp add: td_seconds_def x_def)
  show ?thesis unfolding t x_def[symmetric] using hm_of_seconds [OF x0 x1] by simp
qed

lemma read_last_bonus_ledger:
  "ledger_fields r' = ledger_fields r \<Longrightarrow> read_last_bonus lib (Some r') = read_last_bonus lib (Some r)"
  by (simp add: read_last_bonus_def ledger_fields_def)

text \<open>
  The daily bonus for a verified user with row \<open>r\<close> (and, on a button press, an answered
  callback):
  \<^item> with no \<^verbatim>\<open>last_bonus\<close> the claim is granted at once: the balance becomes
    \<^verbatim>\<open>balance + DAILY_BONUS\<close> (Decimal addition in the 28-digit context, which is the
    exact sum whenever that has at most 28 digits),
    \<^verbatim>\<open>last_bonus\<close> becomes the ISO text of the clock reading \<open>now2\<close>, no other ledger
    column changes, and the user is sent the bonus message;
  \<^item> with a \<^verbatim>\<open>last_bonus\<close> that parses to an aware instant \<open>t\<close> and \<open>now1 - t\<close> under 24
    hours, the claim is refused with the already-claimed message carrying
    \<^verbatim>\<open>remaining.seconds // 3600\<close> and \<^verbatim>\<open>(remaining.seconds % 3600) // 60\<close>, no ledger
    column changes, and when \<open>t\<close> lies before \<open>now1\<close> these two numbers are the remaining
    time in whole hours and minutes (the seconds cut off);
  \<^item> with \<open>now1 - t\<close> of 24 hours or more the claim is granted;
  \<^item> after a granted claim, stamped \<open>now2\<close>, whose ISO text the library reads back, a
    further claim at \<open>now3\<close> is refused in the same way while \<open>now3 - now2\<close> is under 24
    hours and is granted again from 24 hours on.
\<close>

lemma daily_bonus_cooldown:
  assumes v: "user_is_verified tid s" and a: "trig = Callback \<longrightarrow> answer_ok tg"
    and r: "get_user_row tid s = Some r"
  shows "(last_bonus r = None \<longrightarrow>
            map_option ledger_fields (get_user_row tid (snd (claim_daily_action cfg lib tg trig tid now1 now2 s)))
              = Some (ledger_fields (granted_row cfg lib now2 r))
            \<and> (format_bnb (DAILY_BONUS cfg) = Inr b \<longrightarrow>
                 fst (fst (claim_daily_action cfg lib tg trig tid now1 now2 s)) = [SendMessage tid (BonusReceived b)]))
       \<and> (last_bonus r = Some stamp \<and> stamp \<noteq> [] \<and> fromisoformat lib stamp = Some (Aware t) \<and> now1 - t < hours24 \<longrightarrow>
            fst (fst (claim_daily_action cfg lib tg trig tid now1 now2 s))
              = [SendMessage tid (AlreadyClaimed (td_seconds (hours24 - (now1 - t)) div 3600)
                                                 ((td_seconds (hours24 - (now1 - t)) mod 3600) div 60))]
            \<and> map_option ledger_fields (get_user_row tid (snd (claim_daily_action cfg lib tg trig tid now1 now2 s)))
                = Some (ledger_fields r)
            \<and> (0 < now1 - t \<longrightarrow>
                  3600 * (td_seconds (hours24 - (now1 - t)) div 3600)
                    + 60 * ((td_seconds (hours24 - (now1 - t)) mod 3600) div 60)
                    \<le> (hours24 - (now1 - t)) div 1000000
                  \<and> (hours24 - (now1 - t)) div 1000000
                    < 3600 * (td_seconds (hours24 - (now1 - t)) div 3600)
                      + 60 * ((td_seconds (hours24 - (now1 - t)) mod 3600) div 60) + 60))
       \<and> (last_bonus r = Some stamp \<and> stamp \<noteq> [] \<and> fromisoformat lib stamp = Some (Aware t) \<and> hours24 \<le> now1 - t \<longrightarrow>
            map_option ledger_fields (get_user_row tid (snd (claim_daily_action cfg lib tg trig tid now1 now2 s)))
              = Some (ledger_fields (granted_row cfg lib now2 r)))
       \<and> ((last_bonus r = None \<or> (last_bonus r = Some stamp \<and> stamp \<noteq> [] \<and> fromisoformat lib stamp = Some (Aware t) \<and> hours24 \<le> now1 - t))
            \<and> fromisoformat lib (isoformat lib (Aware now2)) = Some (Aware now2)
            \<and> isoformat lib (Aware now2) \<noteq> []
            \<and> (trig' = Callback \<longrightarrow> answer_ok tg') \<longrightarrow>
            (now3 - now2 < hours24 \<longrightarrow>
               fst (fst (claim_daily_action cfg lib tg' trig' tid now3 now4
                          (snd (claim_daily_action cfg lib tg trig tid now1 now2 s))))
                 = [SendMessage tid (AlreadyClaimed (td_seconds (hours24 - (now3 - now2)) div 3600)
                                                    ((td_seconds (hours24 - (now3 - now2)) mod 3600) div 60))]
               \<and> map_option ledger_fields
                   (get_user_row tid (snd (claim_daily_action cfg lib tg' trig' tid now3 now4
                          (snd (claim_daily_action cfg lib tg trig tid now1 now2 s)))))
                 = Some (ledger_fields (granted_row cfg lib now2 r)))
            \<and> (hours24 \<le> now3 - now2 \<longrightarrow>
               map_option ledger_fields
                   (get_user_row tid (snd (claim_daily_action cfg lib tg' trig' tid now3 now4
                          (snd (claim_daily_action cfg lib tg trig tid now1 now2 s)))))
                 = Some (ledger_fields (granted_row cfg lib now4 (granted_row cfg lib now2 r)))))
       \<and> (ndigits (nat \<bar>exact_sum (balance r) (DAILY_BONUS cfg)\<bar>) \<le> prec \<longrightarrow>
            dec_val (balance (granted_row cfg lib now2 r)) = dec_val (balance r) + dec_val (DAILY_BONUS cfg))"
    (is "?P1 \<and> ?P2 \<and> ?P3 \<and> ?P4 \<and> ?P5")
proof -
  let ?c = "claim_daily_action cfg lib tg trig tid now1 now2 s"
  have absent: "?c = grant_daily cfg lib tg tid now2 s" if "last_bonus r = None"
    using claim_absent [OF v a r] that by (simp add: read_last_bonus_def)
  have elapsed: "?c = grant_daily cfg lib tg tid now2 s"
    if "last_bonus r = Some stamp" "stamp \<noteq> []" "fromisoformat lib stamp = Some (Aware t)" "hours24 \<le> now1 - t"
    using claim_elapsed [OF v a r _ that(4)] that by (simp add: read_last_bonus_def)
  have P1: ?P1
    using absent grant_daily_row [OF r] grant_daily_outs by auto
  have P2: ?P2
  proof (intro impI, elim conjE)
    assume h: "last_bonus r = Some stamp" "stamp \<noteq> []" "fromisoformat lib stamp = Some (Aware t)" "now1 - t < hours24"
    have rd: "read_last_bonus lib (Some r) = Some (Aware t)" using h by (simp add: read_last_bonus_def)
    show "fst (fst ?c)
              = [SendMessage tid (AlreadyClaimed (td_seconds (hours24 - (now1 - t)) div 3600)
                                                 ((td_seconds (hours24 - (now1 - t)) mod 3600) div 60))]
            \<and> map_option ledger_fields (get_user_row tid (snd ?c)) = Some (ledger_fields r)
            \<and> (0 < now1 - t \<longrightarrow>
                  3600 * (td_seconds (hours24 - (now1 - t)) div 3600)
                    + 60 * ((td_seconds (hours24 - (now1 - t)) mod 3600) div 60)
                    \<le> (hours24 - (now1 - t)) div 1000000
                  \<and> (hours24 - (now1 - t)) div 1000000
                    < 3600 * (td_seconds (hours24 - (now1 - t)) div 3600)
                      + 60 * ((td_seconds (hours24 - (now1 - t)) mod 3600) div 60) + 60)"
      using claim_cooldown [OF v a r rd h(4)] safe_send_ledger [OF r] safe_send_outs
        remaining_hm [of "now1 - t"] h(4) by simp
  qed
  have P3: ?P3
    using elapsed grant_daily_row [OF r] by auto
  have P4: ?P4
  proof (intro impI, elim conjE)
    assume g: "last_bonus r = None \<or> (last_bonus r = Some stamp \<and> stamp \<noteq> [] \<and> fromisoformat lib stamp = Some (Aware t) \<and> hours24 \<le> now1 - t)"
      and rt: "fromisoformat lib (isoformat lib (Aware now2)) = Some (Aware now2)"
      and ne: "isoformat lib (Aware now2) \<noteq> []"
      and a': "trig' = Callback \<longrightarrow> answer_ok tg'"
    from g have c: "?c = grant_daily cfg lib tg tid now2 s" using absent elapsed by auto
    have v': "user_is_verified tid (snd ?c)" unfolding c by (rule grant_daily_verified [OF v])
    from grant_daily_row [OF r, of cfg lib tg now2] obtain r'
      where r': "get_user_row tid (snd ?c) = Some r'"
        and l': "ledger_fields r' = ledger_fields (granted_row cfg lib now2 r)"
      unfolding c by auto
    have rd: "read_last_bonus lib (Some r') = Some (Aware now2)"
      using read_last_bonus_ledger [OF l', of lib] rt ne
      by (simp add: read_last_bonus_def granted_row_def)
    have cool: "now3 - now2 < hours24 \<Longrightarrow>
        claim_daily_action cfg lib tg' trig' tid now3 now4 (snd ?c) =
           safe_send_and_store (send_id tg') tid
             (AlreadyClaimed (td_seconds (hours24 - (now3 - now2)) div 3600)
                             ((td_seconds (hours24 - (now3 - now2)) mod 3600) div 60)) (snd ?c)"
      by (rule claim_cooldown [OF v' a' r' rd])
    have again: "hours24 \<le> now3 - now2 \<Longrightarrow>
        claim_daily_action cfg lib tg' trig' tid now3 now4 (snd ?c) = grant_daily cfg lib tg' tid now4 (snd ?c)"
      by (rule claim_elapsed [OF v' a' r' rd])
    have gl: "ledger_fields (granted_row cfg lib now4 r') = ledger_fields (granted_row cfg lib now4 (granted_row cfg lib now2 r))"
      using l' by (simp add: ledger_fields_def granted_row_def)
    show "(now3 - now2 < hours24 \<longrightarrow>
               fst (fst (claim_daily_action cfg lib tg' trig' tid now3 now4 (snd ?c)))
                 = [SendMessage tid (AlreadyClaimed (td_seconds (hours24 - (now3 - now2)) div 3600)
                                                    ((td_seconds (hours24 - (now3 - now2)) mod 3600) div 60))]
               \<and> map_option ledger_fields
                   (get_user_row tid (snd (claim_daily_action cfg lib tg' trig' tid now3 now4 (snd ?c))))
                 = Some (ledger_fields (granted_row cfg lib now2 r)))
            \<and> (hours24 \<le> now3 - now2 \<longrightarrow>
               map_option ledger_fields
                   (get_user_row tid (snd (claim_daily_action cfg lib tg' trig' tid now3 now4 (snd ?c))))
                 = Some (ledger_fields (granted_row cfg lib now4 (granted_row cfg lib now2 r))))"
      using cool again safe_send_ledger [OF r'] safe_send_outs grant_daily_row [OF r', of cfg lib tg' now4] l' gl
      by simp
  qed
  have P5: ?P5
    by (simp add: granted_row_def dec_add_val)
  from P1 P2 P3 P4 P5 show ?thesis by blast
qed

lemma ledger_fields_eqD:
  assumes "map_option ledger_fields x = Some (ledger_fields r)"
  shows "map_option balance x = Some (balance r)" and "map_option last_bonus x = Some (last_bonus r)"
  using assms by (auto simp: ledger_fields_def)

text \<open>
  The scenario of the spec: user 10 has balance 0 and claims, the balance is 0.001 and
  the timestamp is set; a second claim one second later fails, 23 hours and 59 minutes
  remaining; a claim 24 hours later is granted. User 12 claimed an hour ago.
\<close>

lemma daily_bonus_examples:
  "map_option balance (get_user_row 10 (snd (claim_daily_action cfg0 lib0 tg_ok Callback 10 jan1 jan1 bot10)))
     = Some (Dec False 1 (- 3))
   \<and> map_option last_bonus (get_user_row 10 (snd (claim_daily_action cfg0 lib0 tg_ok Callback 10 jan1 jan1 bot10)))
     = Some (Some ''2024-01-01T00:00:00+00:00'')
   \<and> fst (fst (claim_daily_action cfg0 lib0 tg_ok Callback 10 jan1 jan1 bot10))
     = [SendMessage 10 (BonusReceived ''0.001 BNB'')]
   \<and> fst (fst (claim_daily_action cfg0 lib0 tg_ok Command 10 (jan1 + 1000000) (jan1 + 1000000)
          (snd (claim_daily_action cfg0 lib0 tg_ok Callback 10 jan1 jan1 bot10))))
     = [SendMessage 10 (AlreadyClaimed 23 59)]
   \<and> map_option balance (get_user_row 10 (snd (claim_daily_action cfg0 lib0 tg_ok Command 10 (jan1 + 1000000) (jan1 + 1000000)
          (snd (claim_daily_action cfg0 lib0 tg_ok Callback 10 jan1 jan1 bot10)))))
     = Some (Dec False 1 (- 3))
   \<and> map_option balance (get_user_row 10 (snd (claim_daily_action cfg0 lib0 tg_ok Command 10 (jan1 + hours24) (jan1 + hours24)
          (snd (claim_daily_action cfg0 lib0 tg_ok Callback 10 jan1 jan1 bot10)))))
     = Some (Dec False 2 (- 3))
   \<and> fst (fst (claim_daily_action cfg0 lib0 tg_ok Command 12 (jan1 + 3600000000) (jan1 + 3600000000) bot12))
     = [SendMessage 12 (AlreadyClaimed 23 0)]
   \<and> map_option balance (get_user_row 12 (snd (claim_daily_action cfg0 lib0 tg_ok Command 12 (jan1 + 3600000000) (jan1 + 3600000000) bot12)))
     = Some (Dec False 1 (- 3))
   \<and> map_option balance (get_user_row 12 (snd (claim_daily_action cfg0 lib0 tg_ok Command 12 (jan1 + hours24) (jan1 + hours24) bot12)))
     = Some (Dec False 2 (- 3))"
proof -
  have v10: "user_is_verified 10 bot10" and r10: "get_user_row 10 bot10 = Some user10"
    and v12: "user_is_verified 12 bot12" and r12: "get_user_row 12 bot12 = Some user12"
    by (simp_all add: bot10_def bot12_def user10_def user12_def user_is_verified_def get_user_row_def)
  have a: "Callback = Callback \<longrightarrow> answer_ok tg_ok" "Command = Callback \<longrightarrow> answer_ok tg_ok"
    by (simp_all add: tg_ok_def)
  have l10: "last_bonus user10 = None"
    and l12: "last_bonus user12 = Some ''2024-01-01T00:00:00+00:00''"
    by (simp_all add: user10_def user12_def)
  have lib: "fromisoformat lib0 (isoformat lib0 (Aware jan1)) = Some (Aware jan1)"
    "isoformat lib0 (Aware jan1) \<noteq> []"
    "fromisoformat lib0 ''2024-01-01T00:00:00+00:00'' = Some (Aware jan1)"
    "isoformat lib0 (Aware jan1) = ''2024-01-01T00:00:00+00:00''"
    by (simp_all add: lib0_def)
  have f: "format_bnb (DAILY_BONUS cfg0) = Inr ''0.001 BNB''"
    by (simp add: cfg0_def format_bnb_daily del: One_nat_def)
  have g: "balance (granted_row cfg0 lib0 n user10) = Dec False 1 (- 3)"
    "balance (granted_row cfg0 lib0 n (granted_row cfg0 lib0 m user10)) = Dec False 2 (- 3)"
    "balance (granted_row cfg0 lib0 n user12) = Dec False 2 (- 3)"
    "last_bonus (granted_row cfg0 lib0 jan1 user10) = Some ''2024-01-01T00:00:00+00:00''"
    "balance user12 = Dec False 1 (- 3)"
    for n m
    by (simp_all add: granted_row_def cfg0_def user10_def user12_def dec_add_examples lib del: One_nat_def)
  have hm: "td_seconds (hours24 - 1000000) div 3600 = 23"
    "(td_seconds (hours24 - 1000000) mod 3600) div 60 = 59"
    "td_seconds (hours24 - 3600000000) div 3600 = 23"
    "(td_seconds (hours24 - 3600000000) mod 3600) div 60 = 0"
    by (simp_all add: td_seconds_def hours24_def)
  note c1 = daily_bonus_cooldown [OF v10 a(1) r10, where lib = lib0 and cfg = cfg0 and ?now1.0 = jan1 and ?now2.0 = jan1 and b = "''0.001 BNB''" and stamp = "[]" and t = 0 and trig' = Command and tg' = tg_ok and ?now3.0 = "jan1 + 1000000" and ?now4.0 = "jan1 + 1000000"]
  note c2 = daily_bonus_cooldown [OF v10 a(1) r10, where lib = lib0 and cfg = cfg0 and ?now1.0 = jan1 and ?now2.0 = jan1 and b = "''0.001 BNB''" and stamp = "[]" and t = 0 and trig' = Command and tg' = tg_ok and ?now3.0 = "jan1 + hours24" and ?now4.0 = "jan1 + hours24"]
  note c3 = daily_bonus_cooldown [OF v12 a(2) r12, where lib = lib0 and cfg = cfg0 and stamp = "''2024-01-01T00:00:00+00:00''" and t = jan1 and ?now1.0 = "jan1 + 3600000000" and ?now2.0 = "jan1 + 3600000000"]
  note c4 = daily_bonus_cooldown [OF v12 a(2) r12, where lib = lib0 and cfg = cfg0 and stamp = "''2024-01-01T00:00:00+00:00''" and t = jan1 and ?now1.0 = "jan1 + hours24" and ?now2.0 = "jan1 + hours24"]
  have A: "map_option ledger_fields (get_user_row 10 (snd (claim_daily_action cfg0 lib0 tg_ok Callback 10 jan1 jan1 bot10)))
              = Some (ledger_fields (granted_row cfg0 lib0 jan1 user10))"
     "fst (fst (claim_daily_action cfg0 lib0 tg_ok Callback 10 jan1 jan1 bot10)) = [SendMessage 10 (BonusReceived ''0.001 BNB'')]"
    using c1 [THEN conjunct1] l10 f by simp_all
  have B: "fst (fst (claim_daily_action cfg0 lib0 tg_ok Command 10 (jan1 + 1000000) (jan1 + 1000000)
          (snd (claim_daily_action cfg0 lib0 tg_ok Callback 10 jan1 jan1 bot10))))
     = [SendMessage 10 (AlreadyClaimed 23 59)]"
     "map_option ledger_fields (get_user_row 10 (snd (claim_daily_action cfg0 lib0 tg_ok Command 10 (jan1 + 1000000) (jan1 + 1000000)
          (snd (claim_daily_action cfg0 lib0 tg_ok Callback 10 jan1 jan1 bot10)))))
       = Some (ledger_fields (granted_row cfg0 lib0 jan1 user10))"
    using c1 [THEN conjunct2, THEN conjunct2, THEN conjunct2, THEN conjunct1] l10 lib(1,2) a(2) hm by (simp_all add: hours24_def)
  have C: "map_option ledger_fields (get_user_row 10 (snd (claim_daily_action cfg0 lib0 tg_ok Command 10 (jan1 + hours24) (jan1 + hours24)
          (snd (claim_daily_action cfg0 lib0 tg_ok Callback 10 jan1 jan1 bot10)))))
       = Some (ledger_fields (granted_row cfg0 lib0 (jan1 + hours24) (granted_row cfg0 lib0 jan1 user10)))"
    using c2 [THEN conjunct2, THEN conjunct2, THEN conjunct2, THEN conjunct1] l10 lib(1,2) a(2) by simp
  have D: "fst (fst (claim_daily_action cfg0 lib0 tg_ok Command 12 (jan1 + 3600000000) (jan1 + 3600000000) bot12))
     = [SendMessage 12 (AlreadyClaimed 23 0)]"
     "map_option ledger_fields (get_user_row 12 (snd (claim_daily_action cfg0 lib0 tg_ok Command 12 (jan1 + 3600000000) (jan1 + 3600000000) bot12)))
       = Some (ledger_fields user12)"
    using c3 [THEN conjunct2, THEN conjunct1] l12 lib(3) hm by (simp_all add: hours24_def)
  have E: "map_option ledger_fields (get_user_row 12 (snd (claim_daily_action cfg0 lib0 tg_ok Command 12 (jan1 + hours24) (jan1 + hours24) bot12)))
       = Some (ledger_fields (granted_row cfg0 lib0 (jan1 + hours24) user12))"
    using c4 [THEN conjunct2, THEN conjunct2, THEN conjunct1] l12 lib(3) by simp
  show ?thesis
    using ledger_fields_eqD [OF A(1)] A(2) B(1) ledger_fields_eqD(1) [OF B(2)] ledger_fields_eqD(1) [OF C]
      D(1) ledger_fields_eqD(1) [OF D(2)] ledger_fields_eqD(1) [OF E] g
    by simp
qed

text \<open>
  C4. A refused claim does not always carry the remaining time. The hours and minutes of
  the message are taken from \<^verbatim>\<open>remaining.seconds\<close>, the seconds of a \<^verbatim>\<open>timedelta\<close> without
  its whole days, and the remaining time is a day or more as soon as the clock does not
  read later than the stored timestamp. User 10 is granted the bonus at the clock reading
  2024-01-01T00:00:00 UTC, which is stored. A second claim at the same clock reading has
  24 hours to wait and is answered \<^verbatim>\<open>Try again in 0h 0m\<close>; a second claim at a clock
  reading one hour earlier has 25 hours to wait and is answered \<^verbatim>\<open>Try again in 1h 0m\<close>.
\<close>

theorem cooldown_message_drops_whole_days:
  "fst (fst (claim_daily_action cfg0 lib0 tg_ok Callback 10 jan1 jan1 bot10))
     = [SendMessage 10 (BonusReceived ''0.001 BNB'')]
   \<and> map_option last_bonus (get_user_row 10 (snd (claim_daily_action cfg0 lib0 tg_ok Callback 10 jan1 jan1 bot10)))
     = Some (Some ''2024-01-01T00:00:00+00:00'')
   \<and> hours24 - (jan1 - jan1) = 24 * 3600 * 1000000
   \<and> fst (fst (claim_daily_action cfg0 lib0 tg_ok Command 10 jan1 jan1
          (snd (claim_daily_action cfg0 lib0 tg_ok Callback 10 jan1 jan1 bot10))))
     = [SendMessage 10 (AlreadyClaimed 0 0)]
   \<and> hours24 - (jan1 - 3600 * 1000000 - jan1) = 25 * 3600 * 1000000
   \<and> fst (fst (claim_daily_action cfg0 lib0 tg_ok Command 10 (jan1 - 3600 * 1000000) (jan1 - 3600 * 1000000)
          (snd (claim_daily_action cfg0 lib0 tg_ok Callback 10 jan1 jan1 bot10))))
     = [SendMessage 10 (AlreadyClaimed 1 0)]"
proof -
  let ?s = "snd (claim_daily_action cfg0 lib0 tg_ok Callback 10 jan1 jan1 bot10)"
  have v: "user_is_verified 10 bot10" and r: "get_user_row 10 bot10 = Some user10"
    by (simp_all add: bot10_def user10_def user_is_verified_def get_user_row_def)
  have a: "Callback = Callback \<longrightarrow> answer_ok tg_ok" "Command = Callback \<longrightarrow> answer_ok tg_ok"
    by (simp_all add: tg_ok_def)
  have rd: "read_last_bonus lib0 (Some user10) = None"
    by (simp add: read_last_bonus_def user10_def)
  have f: "format_bnb (DAILY_BONUS cfg0) = Inr ''0.001 BNB''"
    by (simp add: cfg0_def format_bnb_daily del: One_nat_def)
  have c: "claim_daily_action cfg0 lib0 tg_ok Callback 10 jan1 jan1 bot10 = grant_daily cfg0 lib0 tg_ok 10 jan1 bot10"
    by (rule claim_absent [OF v a(1) r rd])
  have v': "user_is_verified 10 ?s" unfolding c by (rule grant_daily_verified [OF v])
  from grant_daily_row [OF r, of cfg0 lib0 tg_ok jan1] obtain r'
    where r': "get_user_row 10 ?s = Some r'"
      and l': "ledger_fields r' = ledger_fields (granted_row cfg0 lib0 jan1 user10)"
    unfolding c by auto
  have lb: "last_bonus r' = Some ''2024-01-01T00:00:00+00:00''"
    using l' by (simp add: ledger_fields_def granted_row_def lib0_def)
  have rd': "read_last_bonus lib0 (Some r') = Some (Aware jan1)"
    by (simp add: read_last_bonus_def lb lib0_def)
  have h: "td_seconds (hours24 - (jan1 - jan1)) div 3600 = 0"
    "(td_seconds (hours24 - (jan1 - jan1)) mod 3600) div 60 = 0"
    "td_seconds (hours24 - (jan1 - 3600 * 1000000 - jan1)) div 3600 = 1"
    "(td_seconds (hours24 - (jan1 - 3600 * 1000000 - jan1)) mod 3600) div 60 = 0"
    "jan1 - jan1 < hours24" "jan1 - 3600 * 1000000 - jan1 < hours24"
    by (simp_all add: td_seconds_def hours24_def)
  have "fst (fst (claim_daily_action cfg0 lib0 tg_ok Callback 10 jan1 jan1 bot10))
     = [SendMessage 10 (BonusReceived ''0.001 BNB'')]"
    unfolding c by (rule grant_daily_outs [OF f])
  moreover have "map_option last_bonus (get_user_row 10 ?s) = Some (Some ''2024-01-01T00:00:00+00:00'')"
    by (simp add: r' lb)
  moreover have "hours24 - (jan1 - jan1) = 24 * 3600 * 1000000"
    "hours24 - (jan1 - 3600 * 1000000 - jan1) = 25 * 3600 * 1000000"
    by (simp_all add: hours24_def)
  moreover have "fst (fst (claim_daily_action cfg0 lib0 tg_ok Command 10 jan1 jan1 ?s))
     = [SendMessage 10 (AlreadyClaimed 0 0)]"
    unfolding claim_cooldown [OF v' a(2) r' rd' h(5)] safe_send_outs h(1,2) by simp
  moreover have "fst (fst (claim_daily_action cfg0 lib0 tg_ok Command 10 (jan1 - 3600 * 1000000) (jan1 - 3600 * 1000000) ?s))
     = [SendMessage 10 (AlreadyClaimed 1 0)]"
    unfolding claim_cooldown [OF v' a(2) r' rd' h(6)] safe_send_outs h(3,4) by simp
  ultimately show ?thesis by simp
qed

text \<open>
  C10. When the stored \<^verbatim>\<open>last_bonus\<close> text of a verified user does not parse
  (\<^verbatim>\<open>fromisoformat\<close> raises), the claim runs exactly as if the column were empty: the
  bonus is granted, whatever the clock says, so such a text lifts the cooldown.
\<close>

theorem unparseable_last_bonus_grants:
  assumes v: "user_is_verified tid s" and a: "trig = Callback \<longrightarrow> answer_ok tg"
    and r: "get_user_row tid s = Some r"
    and l: "last_bonus r = Some stamp" and p: "fromisoformat lib stamp = None"
  shows "claim_daily_action cfg lib tg trig tid now1 now2 s
           = claim_daily_action cfg lib tg trig tid now1 now2
               (update_user tid (\<lambda>u. u\<lparr>last_bonus := None\<rparr>) s)
       \<and> map_option ledger_fields
             (get_user_row tid (snd (claim_daily_action cfg lib tg trig tid now1 now2 s)))
           = Some (ledger_fields (granted_row cfg lib now2 r))
       \<and> (format_bnb (DAILY_BONUS cfg) = Inr b \<longrightarrow>
             fst (fst (claim_daily_action cfg lib tg trig tid now1 now2 s))
               = [SendMessage tid (BonusReceived b)])"
proof -
  let ?s0 = "update_user tid (\<lambda>u. u\<lparr>last_bonus := None\<rparr>) s"
  have rd: "read_last_bonus lib (Some r) = None"
    using l p by (simp add: read_last_bonus_def)
  have c: "claim_daily_action cfg lib tg trig tid now1 now2 s = grant_daily cfg lib tg tid now2 s"
    by (rule claim_absent [OF v a r rd])
  have v0: "user_is_verified tid ?s0" and r0: "get_user_row tid ?s0 = Some (r\<lparr>last_bonus := None\<rparr>)"
    using v r by (simp_all add: user_is_verified_def get_user_row_def update_user_def)
  have c0: "claim_daily_action cfg lib tg trig tid now1 now2 ?s0 = grant_daily cfg lib tg tid now2 ?s0"
    by (rule claim_absent [OF v0 a r0]) (simp add: read_last_bonus_def)
  have g: "grant_daily cfg lib tg tid now2 ?s0 = grant_daily cfg lib tg tid now2 s"
    using r by (auto simp: grant_daily_def db_defs io_defs Let_def split: option.splits sum.splits)
  show ?thesis
    using c c0 g grant_daily_row [OF r, of cfg lib tg now2] grant_daily_outs [of cfg b lib tg tid now2 s]
    by simp
qed

theorem unparseable_last_bonus_example:
  "last_bonus user11 = Some ''yesterday''
   \<and> map_option balance (get_user_row 11 (snd (claim_daily_action cfg0 lib0 tg_ok Command 11 jan1 jan1 bot10)))
     = Some (Dec False 1 (- 3))
   \<and> fst (fst (claim_daily_action cfg0 lib0 tg_ok Command 11 jan1 jan1 bot10))
     = [SendMessage 11 (BonusReceived ''0.001 BNB'')]"
proof -
  have v: "user_is_verified 11 bot10" and r: "get_user_row 11 bot10 = Some user11"
    by (simp_all add: bot10_def user10_def user11_def user_is_verified_def get_user_row_def)
  have a: "Command = Callback \<longrightarrow> answer_ok tg_ok" by simp
  have l: "last_bonus user11 = Some ''yesterday''" by (simp add: user11_def)
  have p: "fromisoformat lib0 ''yesterday'' = None" by (simp add: lib0_def)
  have f: "format_bnb (DAILY_BONUS cfg0) = Inr ''0.001 BNB''"
    by (simp add: cfg0_def format_bnb_daily del: One_nat_def)
  have g: "balance (granted_row cfg0 lib0 jan1 user11) = Dec False 1 (- 3)"
    by (simp add: granted_row_def cfg0_def user10_def user11_def dec_add_examples del: One_nat_def)
  note c = unparseable_last_bonus_grants [OF v a r l p, where cfg = cfg0 and ?now1.0 = jan1
      and ?now2.0 = jan1 and b = "''0.001 BNB''"]
  show ?thesis
    using ledger_fields_eqD(1) [OF c [THEN conjunct2, THEN conjunct1]]
      c [THEN conjunct2, THEN conjunct2] f g l
    by simp
qed

subsection \<open>Terminal withdrawal states\<close>

lemma withdraw_bot7w: "snd (withdraw_action cfg0 tg_ok Command 7 1000 bot7) = bot7w"
  by (simp add: withdraw_bot7 bot7w_def wd1_def)

lemma reject_pressed_bot7w:
  "snd (approve_reject_callback cfg0 tg_ok 1 ''reject:1'' bot7w) = bot7w\<lparr>pending_rejects := [1 \<mapsto> 1]\<rparr>"
  by (simp add: approve_reject_callback_def parse_callback_reject_1 cfg0_def tg_ok_def bot7w_def
      wd1_def bot7_def empty_bot_def get_withdrawal_def io_defs Let_def)

lemma approve_pressed_bot7w:
  "snd (approve_reject_callback cfg0 tg_ok 1 ''approve:1'' (bot7w\<lparr>pending_rejects := [1 \<mapsto> 1]\<rparr>))
     = bot7w\<lparr>pending_rejects := [1 \<mapsto> 1],
             withdrawals := [1 \<mapsto> wd1\<lparr>w_status := Approved\<rparr>],
             users := [7 \<mapsto> user7\<lparr>last_bot_message_id := Some 100, balance := Dec False 0 0\<rparr>]\<rparr>"
  by (simp add: approve_reject_callback_def parse_callback_approve_1 cfg0_def tg_ok_def bot7w_def
      wd1_def bot7_def empty_bot_def db_defs io_defs Let_def format_bnb_half dec_zero_def)

lemma reason_sent_bot7w:
  "message_handler cfg0 lib0 tg_ok 1 ''no''
     (bot7w\<lparr>pending_rejects := [1 \<mapsto> 1],
            withdrawals := [1 \<mapsto> wd1\<lparr>w_status := Approved\<rparr>],
            users := [7 \<mapsto> user7\<lparr>last_bot_message_id := Some 100, balance := Dec False 0 0\<rparr>]\<rparr>)
     = (([SendMessage 7 (RejectedNotice 1 ''no''), SendMessage 1 (RejectionProcessed 1)], None),
        bot7w\<lparr>pending_rejects := Map.empty,
              withdrawals := [1 \<mapsto> wd1\<lparr>w_status := Rejected\<rparr>],
              users := [7 \<mapsto> user7\<lparr>last_bot_message_id := Some 100, balance := Dec False 0 0\<rparr>]\<rparr>)"
  by (simp add: message_handler_def cfg0_def tg_ok_def bot7w_def wd1_def bot7_def empty_bot_def
      db_defs io_defs Let_def strip_def isspace_def)

text \<open>
  C1. The claim fails on the deferred path. Request 1 of user 7 is pending; the operator
  (id 1) presses Reject on it, then Approve on it, then sends the text \<^verbatim>\<open>no\<close>. After the
  second press the request is approved (and the balance of user 7 is zero); the text
  message is then taken as the rejection reason: \<^verbatim>\<open>message_handler\<close> marks the approved
  request rejected, tells user 7 so and confirms to the operator, with no conflict reported.
\<close>

theorem reject_reason_overwrites_approved:
  "map_option w_status (get_withdrawal 1
      (snd (approve_reject_callback cfg0 tg_ok 1 ''approve:1''
        (snd (approve_reject_callback cfg0 tg_ok 1 ''reject:1''
          (snd (withdraw_action cfg0 tg_ok Command 7 1000 bot7))))))) = Some Approved
   \<and> map_option w_status (get_withdrawal 1
      (snd (message_handler cfg0 lib0 tg_ok 1 ''no''
        (snd (approve_reject_callback cfg0 tg_ok 1 ''approve:1''
          (snd (approve_reject_callback cfg0 tg_ok 1 ''reject:1''
            (snd (withdraw_action cfg0 tg_ok Command 7 1000 bot7))))))))) = Some Rejected
   \<and> fst (message_handler cfg0 lib0 tg_ok 1 ''no''
        (snd (approve_reject_callback cfg0 tg_ok 1 ''approve:1''
          (snd (approve_reject_callback cfg0 tg_ok 1 ''reject:1''
            (snd (withdraw_action cfg0 tg_ok Command 7 1000 bot7)))))))
     = ([SendMessage 7 (RejectedNotice 1 ''no''), SendMessage 1 (RejectionProcessed 1)], None)"
  by (simp add: withdraw_bot7w reject_pressed_bot7w approve_pressed_bot7w reason_sent_bot7w
      get_withdrawal_def)

subsection \<open>Address validation\<close>

lemma addr_flipped_facts:
  "strip addr_flipped = addr_flipped" "startswith addr_flipped ''0x''" "length addr_flipped = 42"
  "addr_flipped \<noteq> addr0"
  by (simp_all add: addr_flipped_def strip_def isspace_def startswith_def addr0_def)

lemma addr_flipped_case:
  "lower addr_flipped = ''0x5aaeb6053f3e94c9b9a09f33669435e7ef1beaed''"
  "lower addr_flipped \<noteq> addr_flipped" "upper addr_flipped \<noteq> addr_flipped"
  unfolding addr_flipped_def by code_simp+

text \<open>
  C2. The claim fails on the code: both branches of the conditional in
  \<^verbatim>\<open>is_valid_bsc_address\<close> return \<^verbatim>\<open>True\<close>. With \<^verbatim>\<open>eth_utils\<close> installed, an address
  with the prefix and 42 characters is accepted whenever \<^verbatim>\<open>to_checksum_address\<close> does not
  raise, whatever checksum form \<open>c\<close> it computes and whatever the case of the letters.
\<close>

theorem is_valid_bsc_address_ignores_checksum:
  assumes "to_checksum_address lib = Some tca" and "tca (strip a) = Some c"
    and "startswith (strip a) ''0x''" and "length (strip a) = 42"
  shows "is_valid_bsc_address lib a"
  using assms by (simp add: is_valid_bsc_address_def)

text \<open>
  The mixed-case address \<open>addr_flipped\<close> differs from its checksum form \<open>addr0\<close> in the
  case of one letter, is neither all lowercase nor all uppercase, and is accepted.
\<close>

theorem flipped_case_address_accepted:
  "is_valid_bsc_address lib0 addr_flipped
   \<and> (case to_checksum_address lib0 of Some tca \<Rightarrow> tca (strip addr_flipped) | None \<Rightarrow> None) = Some addr0
   \<and> strip addr_flipped \<noteq> addr0
   \<and> lower (strip addr_flipped) \<noteq> strip addr_flipped
   \<and> upper (strip addr_flipped) \<noteq> strip addr_flipped"
proof -
  let ?tca = "\<lambda>a. if lower a = ''0x5aaeb6053f3e94c9b9a09f33669435e7ef1beaed'' then Some addr0 else None"
  have l: "to_checksum_address lib0 = Some ?tca" by (simp add: lib0_def)
  have c: "?tca (strip addr_flipped) = Some addr0" by (simp add: addr_flipped_facts addr_flipped_case)
  have p: "startswith (strip addr_flipped) ''0x''" "length (strip addr_flipped) = 42"
    by (simp_all add: addr_flipped_facts)
  from is_valid_bsc_address_ignores_checksum [OF l c p] l c
    addr_flipped_facts(1,4) addr_flipped_case(2,3)
  show ?thesis by simp
qed

subsection \<open>Referral credit\<close>

lemma start_once:
  "snd (start_cmd cfg0 tg_ok 2 (Some ''bob'') [''ref5''] empty_bot)
     = empty_bot\<lparr>users := [2 \<mapsto> (new_row (Some ''bob'') (Some 5))\<lparr>last_bot_message_id := Some 100\<rparr>,
                           5 \<mapsto> (new_row None None)\<lparr>balance := Dec False 1 (- 2), referrals := 1\<rparr>]\<rparr>"
  by (simp add: start_cmd_def parse_ref5 cfg0_def tg_ok_def empty_bot_def db_defs io_defs Let_def
      format_bnb_ref dec_add_ref fun_upd_twist del: One_nat_def)

lemma start_twice:
  "snd (start_cmd cfg0 tg_ok 2 (Some ''bob'') [''ref5'']
      (empty_bot\<lparr>users := [2 \<mapsto> (new_row (Some ''bob'') (Some 5))\<lparr>last_bot_message_id := Some 100\<rparr>,
                            5 \<mapsto> (new_row None None)\<lparr>balance := Dec False 1 (- 2), referrals := 1\<rparr>]\<rparr>))
     = empty_bot\<lparr>users := [2 \<mapsto> (new_row (Some ''bob'') (Some 5))\<lparr>last_bot_message_id := Some 100\<rparr>,
                           5 \<mapsto> (new_row None None)\<lparr>balance := Dec False 2 (- 2), referrals := 2\<rparr>]\<rparr>"
  by (simp add: start_cmd_def parse_ref5 cfg0_def tg_ok_def empty_bot_def db_defs io_defs Let_def
      format_bnb_ref dec_add_ref fun_upd_twist del: One_nat_def)

text \<open>
  C3. The claim fails on the code: \<^verbatim>\<open>start_cmd\<close> credits the referrer whenever the
  command carries a referrer id other than 0 and the sender, whether or not the sender is
  new. On the empty database user 2 sends \<^verbatim>\<open>/start ref5\<close> twice: after the first run
  user 5 holds 0.01 with one referral, after the second, when user 2 already had a row,
  0.02 with two referrals.
\<close>

theorem referral_credited_on_every_start:
  "map_option balance (get_user_row 5 (snd (start_cmd cfg0 tg_ok 2 (Some ''bob'') [''ref5''] empty_bot)))
     = Some (Dec False 1 (- 2))
   \<and> map_option referrals (get_user_row 5 (snd (start_cmd cfg0 tg_ok 2 (Some ''bob'') [''ref5''] empty_bot)))
     = Some 1
   \<and> get_user_row 2 (snd (start_cmd cfg0 tg_ok 2 (Some ''bob'') [''ref5''] empty_bot)) \<noteq> None
   \<and> map_option balance (get_user_row 5 (snd (start_cmd cfg0 tg_ok 2 (Some ''bob'') [''ref5'']
        (snd (start_cmd cfg0 tg_ok 2 (Some ''bob'') [''ref5''] empty_bot)))))
     = Some (Dec False 2 (- 2))
   \<and> map_option referrals (get_user_row 5 (snd (start_cmd cfg0 tg_ok 2 (Some ''bob'') [''ref5'']
        (snd (start_cmd cfg0 tg_ok 2 (Some ''bob'') [''ref5''] empty_bot)))))
     = Some 2"
  by (simp add: start_once start_twice get_user_row_def del: One_nat_def)

subsection \<open>Balances are never negative\<close>

lemma dec_val_nonneg_iff: "0 \<le> dec_val d \<longleftrightarrow> \<not> dsign d \<or> dcoeff d = 0"
proof -
  have p: "(0::rat) < 10 powi (dexp d)" by (simp add: power_int_def)
  then have np: "\<not> 10 powi (dexp d) \<le> (0::rat)" by linarith
  show ?thesis
    using p np by (simp add: dec_val_def zero_le_mult_iff mult_le_0_iff)
qed

lemma dec_fix_sign: "dsign (dec_fix d) = dsign d"
  by (simp add: dec_fix_def Let_def)

lemma dec_fix_zero: "dcoeff d = 0 \<Longrightarrow> dec_fix d = d"
  by (simp add: dec_fix_def)

lemma dec_fix_nonneg: "0 \<le> dec_val d \<Longrightarrow> 0 \<le> dec_val (dec_fix d)"
  unfolding dec_val_nonneg_iff using dec_fix_sign [of d] dec_fix_zero [of d] by auto

lemma dec_add_nonneg:
  assumes "0 \<le> dec_val a" and "0 \<le> dec_val b"
  shows "0 \<le> dec_val (dec_add a b)"
proof -
  have sa: "0 \<le> signed_coeff a" and sb: "0 \<le> signed_coeff b"
    using assms by (auto simp: dec_val_nonneg_iff signed_coeff_def)
  let ?e = "min (dexp a) (dexp b)"
  let ?s = "exact_sum a b"
  have s: "0 \<le> ?s" using sa sb by (simp add: exact_sum_def Let_def)
  have z: "dcoeff a = 0 \<and> dcoeff b = 0 \<Longrightarrow> ?s = 0"
    by (simp add: exact_sum_def signed_coeff_def)
  have "0 \<le> dec_val (Dec (if dcoeff a = 0 \<and> dcoeff b = 0 then dsign a \<and> dsign b else ?s < 0) (nat \<bar>?s\<bar>) ?e)"
    using s z by (auto simp: dec_val_nonneg_iff)
  then show ?thesis
    unfolding dec_add_def Let_def by (rule dec_fix_nonneg)
qed

lemma dec_zero_nonneg: "0 \<le> dec_val (Dec False 0 0)" "0 \<le> dec_val dec_zero"
  by (simp_all add: dec_val_def dec_zero_def)

lemma ensure_user_nonneg: "balances_nonneg s \<Longrightarrow> balances_nonneg (ensure_user tid u rf s)"
  by (auto simp: balances_nonneg_def ensure_user_def new_row_def dec_zero_nonneg split: option.splits)

lemma update_user_nonneg:
  assumes "balances_nonneg s" and "\<And>r. 0 \<le> dec_val (balance r) \<Longrightarrow> 0 \<le> dec_val (balance (f r))"
  shows "balances_nonneg (update_user tid f s)"
  using assms by (auto simp: balances_nonneg_def update_user_def split: option.splits)

lemma add_balance_nonneg:
  assumes "balances_nonneg s" and "0 \<le> dec_val amount"
  shows "balances_nonneg (add_balance tid amount s)"
proof -
  let ?s1 = "ensure_user tid None None s"
  have i1: "balances_nonneg ?s1" by (rule ensure_user_nonneg [OF assms(1)])
  have c: "0 \<le> dec_val (case get_user_row tid ?s1 of Some row \<Rightarrow> to_decimal (balance row) | None \<Rightarrow> Dec False 0 0)"
    using i1 by (auto simp: balances_nonneg_def get_user_row_def to_decimal_def dec_zero_nonneg split: option.splits)
  show ?thesis
    unfolding add_balance_def Let_def
    by (rule update_user_nonneg [OF i1]) (simp add: dec_add_nonneg [OF c assms(2)])
qed

lemma set_balance_nonneg:
  assumes "balances_nonneg s" and "0 \<le> dec_val amount"
  shows "balances_nonneg (set_balance tid amount s)"
  unfolding set_balance_def
  by (rule update_user_nonneg [OF ensure_user_nonneg [OF assms(1)]]) (simp add: assms(2))

lemma keep_balance_nonneg:
  assumes "balances_nonneg s"
  shows "balances_nonneg (inc_referrals tid s)" "balances_nonneg (set_wallet tid a s)"
    "balances_nonneg (record_last_bonus lib tid dt s)" "balances_nonneg (set_joined_flag tid v s)"
    "balances_nonneg (set_subscribed_flag tid v s)" "balances_nonneg (save_last_bot_message tid m s)"
  unfolding inc_referrals_def set_wallet_def record_last_bonus_def set_joined_flag_def
    set_subscribed_flag_def save_last_bot_message_def
  by (rule update_user_nonneg [OF assms] update_user_nonneg [OF ensure_user_nonneg [OF assms]], simp)+

lemma other_tables_nonneg:
  "balances_nonneg (s\<lparr>withdrawals := w\<rparr>) = balances_nonneg s"
  "balances_nonneg (s\<lparr>wid_seq := n\<rparr>) = balances_nonneg s"
  "balances_nonneg (s\<lparr>pending_rejects := p\<rparr>) = balances_nonneg s"
  "balances_nonneg (s\<lparr>awaiting_wallet := a\<rparr>) = balances_nonneg s"
  by (simp_all add: balances_nonneg_def)

lemma mark_create_nonneg:
  assumes "balances_nonneg s"
  shows "balances_nonneg (mark_withdrawal wid st s)" "balances_nonneg (snd (create_withdrawal tid am w c s))"
  using assms by (simp_all add: mark_withdrawal_def create_withdrawal_def Let_def other_tables_nonneg split: option.splits)

lemma safe_send_nonneg:
  assumes "balances_nonneg s"
  shows "balances_nonneg (snd (safe_send_and_store sent c m s))"
  using assms by (simp add: safe_send_and_store_def keep_balance_nonneg split: option.splits)

lemma edit_nonneg: "snd (edit_message_text ok m s) = s"
  by (simp add: edit_message_text_def)

lemma after_snd: "snd (after os r) = snd r"
  by (simp add: after_def)

lemmas nonneg_intros = ensure_user_nonneg add_balance_nonneg set_balance_nonneg keep_balance_nonneg
  mark_create_nonneg safe_send_nonneg dec_zero_nonneg

lemmas nonneg_simps = edit_nonneg after_snd other_tables_nonneg returned_def raised_def to_decimal_def

lemma start_cmd_nonneg:
  assumes "balances_nonneg s" and "0 \<le> dec_val (REF_BONUS cfg)"
  shows "balances_nonneg (snd (start_cmd cfg tg tid uname args s))"
  using assms
  by (auto simp: start_cmd_def Let_def nonneg_simps intro!: nonneg_intros split: option.splits sum.splits)

lemma check_both_nonneg:
  assumes "balances_nonneg s"
  shows "balances_nonneg (snd (check_both_callback tg tid s))"
  using assms
  by (auto simp: check_both_callback_def Let_def nonneg_simps intro!: nonneg_intros split: option.splits)

lemma simple_handlers_nonneg:
  assumes "balances_nonneg s"
  shows "balances_nonneg (snd (main_menu_callback tg tid s))"
    and "balances_nonneg (snd (my_balance_action cfg tg trig tid s))"
    and "balances_nonneg (snd (referral_action cfg tg tid s))"
    and "balances_nonneg (snd (admin_stats_cmd cfg tg tid s))"
    and "balances_nonneg (snd (set_wallet_prompt tg tid s))"
  using assms
  by (auto simp: main_menu_callback_def my_balance_action_def referral_action_def admin_stats_cmd_def
      set_wallet_prompt_def safe_send_and_store_def Let_def nonneg_simps
      intro!: nonneg_intros split: option.splits sum.splits)

lemma grant_daily_nonneg:
  assumes "balances_nonneg s" and "0 \<le> dec_val (DAILY_BONUS cfg)"
  shows "balances_nonneg (snd (grant_daily cfg lib tg tid now2 s))"
  using assms
  by (auto simp: grant_daily_def Let_def nonneg_simps intro!: nonneg_intros split: sum.splits)

lemma claim_daily_nonneg:
  assumes "balances_nonneg s" and "0 \<le> dec_val (DAILY_BONUS cfg)"
  shows "balances_nonneg (snd (claim_daily_action cfg lib tg trig tid now1 now2 s))"
  using assms
  by (auto simp: claim_daily_action_def Let_def nonneg_simps
      intro!: nonneg_intros grant_daily_nonneg split: option.splits datetime.splits)

lemma message_handler_nonneg:
  assumes "balances_nonneg s"
  shows "balances_nonneg (snd (message_handler cfg lib tg tid txt s))"
  using assms
  by (auto simp: message_handler_def Let_def nonneg_simps intro!: nonneg_intros split: option.splits)

lemma withdraw_action_nonneg:
  assumes "balances_nonneg s"
  shows "balances_nonneg (snd (withdraw_action cfg tg trig tid clock s))"
  using assms
  by (auto simp: withdraw_action_def create_withdrawal_def Let_def nonneg_simps
      intro!: nonneg_intros split: option.splits sum.splits)

lemma approve_reject_nonneg:
  assumes "balances_nonneg s"
  shows "balances_nonneg (snd (approve_reject_callback cfg tg operator data s))"
  using assms
  by (auto simp: approve_reject_callback_def Let_def nonneg_simps intro!: nonneg_intros
      split: option.splits sum.splits)

lemma step_nonneg:
  assumes "balances_nonneg s" and "0 \<le> dec_val (REF_BONUS cfg)" and "0 \<le> dec_val (DAILY_BONUS cfg)"
  shows "balances_nonneg (snd (step cfg lib tg ev s))"
  using assms
  by (cases ev)
     (simp_all add: start_cmd_nonneg check_both_nonneg simple_handlers_nonneg claim_daily_nonneg
        message_handler_nonneg withdraw_action_nonneg approve_reject_nonneg)

text \<open>
  C8. When the configured referral bonus and daily bonus are not negative, every handler
  keeps every balance non-negative: from a storage in which no balance is negative (the
  empty database is one), no sequence of updates, whatever the users, the clocks and the
  answers of Telegram, reaches a storage with a negative balance. Credits add a
  non-negative amount (the rounding of the 28-digit context keeps the sign), an approval
  writes zero, and nothing else writes a balance.
\<close>

theorem balances_never_negative:
  assumes "0 \<le> dec_val (REF_BONUS cfg)" and "0 \<le> dec_val (DAILY_BONUS cfg)"
    and "balances_nonneg s"
  shows "balances_nonneg (run cfg lib evs s)"
  using assms(3)
proof (induction evs arbitrary: s)
  case Nil
  then show ?case by simp
next
  case (Cons e evs)
  obtain tg ev where e: "e = (tg, ev)" by (cases e)
  show ?case
    unfolding e run.simps
    by (rule Cons.IH) (rule step_nonneg [OF Cons.prems assms(1,2)])
qed

theorem balances_never_negative_example:
  "0 \<le> dec_val (REF_BONUS cfg0) \<and> 0 \<le> dec_val (DAILY_BONUS cfg0) \<and> balances_nonneg empty_bot
   \<and> balances_nonneg
        (run cfg0 lib0
           [(tg_ok, Start 5 None []), (tg_ok, Start 2 (Some ''bob'') [''ref5'']),
            (tg_ok, CheckBoth 5), (tg_ok, ClaimDaily Callback 5 jan1 jan1),
            (tg_ok, SetWallet 5), (tg_ok, TextMessage 5 addr0), (tg_ok, Withdraw Command 5 1000),
            (tg_ok, ApproveReject 1 ''approve:1''), (tg_ok, ApproveReject 1 ''reject:1''),
            (tg_ok, TextMessage 1 ''no'')]
           empty_bot)"
proof -
  have r: "0 \<le> dec_val (REF_BONUS cfg0)" and d: "0 \<le> dec_val (DAILY_BONUS cfg0)"
    by (simp_all add: cfg0_def dec_val_def)
  have e: "balances_nonneg empty_bot"
    by (simp add: balances_nonneg_def empty_bot_def)
  show ?thesis
    by (intro conjI r d e balances_never_negative [OF r d e])
qed

subsection \<open>Display of amounts\<close>

lemma is_digits_digits10: "is_digits (digits10 n)"
  by (simp add: is_digits_def digits10_nonempty list_all_iff digits10_isdigit)

lemma isdigit_zero: "isdigit CHR ''0''" "isdigit c \<Longrightarrow> c \<noteq> CHR ''.''" "isdigit c \<Longrightarrow> c \<noteq> CHR ''-''"
  by (auto simp: isdigit_def)

lemma is_digits_append: "is_digits xs \<Longrightarrow> list_all isdigit ys \<Longrightarrow> is_digits (xs @ ys)"
  "list_all isdigit xs \<Longrightarrow> is_digits ys \<Longrightarrow> is_digits (xs @ ys)"
  by (simp_all add: is_digits_def)

lemma all_digits_zeros: "list_all isdigit (replicate k CHR ''0'')"
  by (simp add: list_all_iff isdigit_zero)

lemma is_digits_no_point: "is_digits xs \<Longrightarrow> takeWhile (\<lambda>c. c \<noteq> CHR ''.'') (xs @ CHR ''.'' # ys) = xs"
  "is_digits xs \<Longrightarrow> dropWhile (\<lambda>c. c \<noteq> CHR ''.'') (xs @ CHR ''.'' # ys) = CHR ''.'' # ys"
  "is_digits xs \<Longrightarrow> takeWhile (\<lambda>c. c \<noteq> CHR ''.'') xs = xs"
  "is_digits xs \<Longrightarrow> dropWhile (\<lambda>c. c \<noteq> CHR ''.'') xs = []"
  "is_digits xs \<Longrightarrow> hd (xs @ zs) \<noteq> CHR ''-''"
  by (auto simp: is_digits_def list_all_iff isdigit_zero takeWhile_append2 dropWhile_append2
      takeWhile_eq_all_conv hd_append)

lemma is_digits_point_free: "is_digits xs \<Longrightarrow> CHR ''.'' \<notin> set xs"
  using isdigit_zero(2) by (auto simp: is_digits_def list_all_iff)

lemma fixed_value_pos:
  assumes ip: "is_digits ip" and fp: "fp = [] \<or> is_digits fp"
  shows "fixed_value (ip @ (if fp = [] then [] else ''.'' @ fp))
           = Some (of_nat (digits_val (ip @ fp)) / 10 ^ length fp)"
proof (cases "fp = []")
  case True
  have h: "ip \<noteq> []" "hd ip \<noteq> CHR ''-''"
    using ip is_digits_no_point(5) [OF ip, of "[]"] by (simp_all add: is_digits_def)
  show ?thesis
    using True h ip by (simp add: fixed_value_def Let_def is_digits_no_point(3,4) [OF ip] is_digits_point_free)
next
  case False
  with fp have f: "is_digits fp" by simp
  have h: "hd (ip @ CHR ''.'' # fp) \<noteq> CHR ''-''" by (rule is_digits_no_point(5) [OF ip])
  show ?thesis
    using False h ip f
    by (simp add: fixed_value_def Let_def is_digits_no_point(1,2) [OF ip])
qed

lemma fixed_value_neg:
  assumes ip: "is_digits ip" and fp: "fp = [] \<or> is_digits fp"
  shows "fixed_value (CHR ''-'' # ip @ (if fp = [] then [] else ''.'' @ fp))
           = Some (- (of_nat (digits_val (ip @ fp)) / 10 ^ length fp))"
proof (cases "fp = []")
  case True
  show ?thesis
    using True ip by (simp add: fixed_value_def Let_def is_digits_no_point(3,4) [OF ip] is_digits_point_free)
next
  case False
  with fp have f: "is_digits fp" by simp
  show ?thesis
    using False ip f
    by (simp add: fixed_value_def Let_def is_digits_no_point(1,2) [OF ip])
qed

lemma places_text:
  assumes ip: "is_digits ip"
  shows "length (dropWhile (\<lambda>c. c \<noteq> CHR ''.'') (ip @ (if fp = [] then [] else ''.'' @ fp))) - 1 = length fp"
    and "length (dropWhile (\<lambda>c. c \<noteq> CHR ''.'') (CHR ''-'' # ip @ (if fp = [] then [] else ''.'' @ fp))) - 1 = length fp"
  by (simp_all add: is_digits_no_point(2,4) [OF ip])

lemma powi_ten:
  "e < 0 \<Longrightarrow> (10::rat) powi e = 1 / 10 ^ nat (- e)"
  "0 \<le> e \<Longrightarrow> (10::rat) powi e = 10 ^ nat e"
  by (simp_all add: power_int_def field_simps)

lemma is_digits_take_drop:
  assumes "is_digits xs"
  shows "take k xs \<noteq> [] \<Longrightarrow> is_digits (take k xs)" and "drop k xs = [] \<or> is_digits (drop k xs)"
  using assms
  by (auto simp: is_digits_def list_all_iff dest: in_set_takeD in_set_dropD)

lemma format_f_parts:
  obtains ip fp where
    "format_f d = (if dsign d then ''-'' else []) @ ip @ (if fp = [] then [] else ''.'' @ fp)"
    and "is_digits ip" and "fp = [] \<or> is_digits fp"
    and "of_nat (digits_val (ip @ fp)) / 10 ^ length fp = (of_nat (dcoeff d) * 10 powi dexp d :: rat)"
    and "length fp = nat (- dexp d)"
proof -
  let ?ds = "digits10 (dcoeff d)"
  let ?n = "int (length ?ds)"
  let ?dot = "dexp d + ?n"
  have ds: "is_digits ?ds" by (rule is_digits_digits10)
  have n: "0 < ?n" using digits10_nonempty [of "dcoeff d"] by simp
  have z: "is_digits ''0''" by (simp add: is_digits_def isdigit_zero)
  consider (a) "?dot < 0" | (b) "?n < ?dot" | (c) "0 \<le> ?dot" "?dot \<le> ?n" by linarith
  then show ?thesis
  proof cases
    case a
    let ?fp = "replicate (nat (- ?dot)) CHR ''0'' @ ?ds"
    have e: "dexp d < 0" using a n by linarith
    have 1: "format_f d = (if dsign d then ''-'' else []) @ ''0'' @ (if ?fp = [] then [] else ''.'' @ ?fp)"
      using a by (simp add: format_f_def Let_def digits10_nonempty)
    have 2: "?fp = [] \<or> is_digits ?fp"
      by (intro disjI2 is_digits_append(2) all_digits_zeros ds)
    have l: "length ?fp = nat (- dexp d)" using a n by simp
    have v: "digits_val (''0'' @ ?fp) = dcoeff d"
      using digits_val_zeros_append [of "Suc (nat (- ?dot))" ?ds] by (simp add: digits_val_digits10)
    have 3: "of_nat (digits_val (''0'' @ ?fp)) / 10 ^ length ?fp = (of_nat (dcoeff d) * 10 powi dexp d :: rat)"
      unfolding v l by (simp add: powi_ten(1) [OF e])
    show ?thesis by (rule that [OF 1 z 2 3 l])
  next
    case b
    let ?ip = "?ds @ replicate (nat (?dot - ?n)) CHR ''0''"
    have e: "0 \<le> dexp d" using b by linarith
    have 1: "format_f d = (if dsign d then ''-'' else []) @ ?ip @ (if ([]::string) = [] then [] else ''.'' @ [])"
      using b by (simp add: format_f_def Let_def)
    have 2: "is_digits ?ip" by (intro is_digits_append(1) all_digits_zeros ds)
    have v: "digits_val (?ip @ []) = dcoeff d * 10 ^ nat (dexp d)"
      by (simp add: digits_val_append digits_val_zeros digits_val_digits10)
    have 3: "of_nat (digits_val (?ip @ [])) / 10 ^ length ([]::string) = (of_nat (dcoeff d) * 10 powi dexp d :: rat)"
      unfolding v by (simp add: powi_ten(2) [OF e])
    have l: "length ([]::string) = nat (- dexp d)" using e by simp
    show ?thesis by (rule that [OF 1 2 _ 3 l]) simp
  next
    case c
    let ?k = "nat ?dot"
    let ?ip = "if take ?k ?ds = [] then ''0'' else take ?k ?ds"
    let ?fp = "drop ?k ?ds"
    have e: "dexp d \<le> 0" using c by linarith
    have 1: "format_f d = (if dsign d then ''-'' else []) @ ?ip @ (if ?fp = [] then [] else ''.'' @ ?fp)"
      using c by (simp add: format_f_def Let_def)
    have 2: "is_digits ?ip" using z is_digits_take_drop(1) [OF ds, of ?k] by simp
    have 4: "?fp = [] \<or> is_digits ?fp" by (rule is_digits_take_drop(2) [OF ds])
    have l: "length ?fp = nat (- dexp d)" using c by simp
    have "digits_val (?ip @ ?fp) = digits_val (take ?k ?ds @ drop ?k ?ds)"
      using digits_val_zeros_append [of 1 "?fp"] by (simp add: numeral_eq_Suc)
    then have v: "digits_val (?ip @ ?fp) = dcoeff d" by (simp add: digits_val_digits10)
    have 3: "of_nat (digits_val (?ip @ ?fp)) / 10 ^ length ?fp = (of_nat (dcoeff d) * 10 powi dexp d :: rat)"
    proof (cases "dexp d = 0")
      case True
      then show ?thesis unfolding v l by simp
    next
      case False
      with e have "dexp d < 0" by simp
      then show ?thesis unfolding v l by (simp add: powi_ten(1))
    qed
    show ?thesis by (rule that [OF 1 2 4 3 l])
  qed
qed

lemma fixed_value_format_f: "fixed_value (format_f d) = Some (dec_val d)"
proof -
  obtain ip fp where
    f: "format_f d = (if dsign d then ''-'' else []) @ ip @ (if fp = [] then [] else ''.'' @ fp)"
    and ip: "is_digits ip" and fp: "fp = [] \<or> is_digits fp"
    and v: "of_nat (digits_val (ip @ fp)) / 10 ^ length fp = (of_nat (dcoeff d) * 10 powi dexp d :: rat)"
    by (rule format_f_parts)
  show ?thesis
  proof (cases "dsign d")
    case True
    then have "format_f d = CHR ''-'' # ip @ (if fp = [] then [] else ''.'' @ fp)" using f by simp
    then show ?thesis using fixed_value_neg [OF ip fp] v True by (simp add: dec_val_def)
  next
    case False
    then have "format_f d = ip @ (if fp = [] then [] else ''.'' @ fp)" using f by simp
    then show ?thesis using fixed_value_pos [OF ip fp] v False by (simp add: dec_val_def)
  qed
qed

lemma places_format_f:
  "length (dropWhile (\<lambda>c. c \<noteq> CHR ''.'') (format_f d)) - 1 = nat (- dexp d)"
proof -
  obtain ip fp where
    f: "format_f d = (if dsign d then ''-'' else []) @ ip @ (if fp = [] then [] else ''.'' @ fp)"
    and ip: "is_digits ip" and l: "length fp = nat (- dexp d)"
    by (rule format_f_parts)
  show ?thesis
  proof (cases "dsign d")
    case True
    then have "format_f d = CHR ''-'' # ip @ (if fp = [] then [] else ''.'' @ fp)" using f by simp
    then show ?thesis using places_text(2) [OF ip, of fp] l by simp
  next
    case False
    then have "format_f d = ip @ (if fp = [] then [] else ''.'' @ fp)" using f by simp
    then show ?thesis using places_text(1) [OF ip, of fp] l by simp
  qed
qed

lemma strip_zeros_conj:
  "strip_zeros c e = (c', e') \<Longrightarrow>
     (of_nat c' * 10 powi e' :: rat) = of_nat c * 10 powi e \<and> e \<le> e' \<and> c' \<le> c"
proof (induction c e rule: strip_zeros.induct)
  case (1 c e)
  show ?case
  proof (cases "c \<noteq> 0 \<and> c mod 10 = 0")
    case True
    then have s: "strip_zeros (c div 10) (e + 1) = (c', e')"
      using "1.prems" by (subst (asm) strip_zeros.simps) simp
    have c: "c = c div 10 * 10" using True by auto
    from "1.IH" [OF True s]
    have i: "(of_nat c' * 10 powi e' :: rat) = of_nat (c div 10) * 10 powi (e + 1)"
      and j: "e + 1 \<le> e'" and k: "c' \<le> c div 10" by simp_all
    have "(of_nat c' * 10 powi e' :: rat) = of_nat (c div 10) * 10 * 10 powi e"
      unfolding i by (simp add: power_int_add_1)
    also have "\<dots> = of_nat (c div 10 * 10) * 10 powi e" by simp
    finally have "(of_nat c' * 10 powi e' :: rat) = of_nat c * 10 powi e" using c by simp
    then show ?thesis using j k by simp
  next
    case False
    then have "(c', e') = (c, e)" using "1.prems" by (subst (asm) strip_zeros.simps) auto
    then show ?thesis by simp
  qed
qed

lemma strip_zeros_val:
  assumes "strip_zeros c e = (c', e')"
  shows "(of_nat c' * 10 powi e' :: rat) = of_nat c * 10 powi e" and "e \<le> e'" and "c' \<le> c"
  using strip_zeros_conj [OF assms] by simp_all

lemma normalize_dec_val:
  assumes "ndigits (dcoeff q) \<le> prec"
  shows "dec_val (normalize_dec q) = dec_val q"
    and "dcoeff q = 0 \<Longrightarrow> dexp (normalize_dec q) = 0"
    and "dcoeff q \<noteq> 0 \<Longrightarrow> dexp q \<le> dexp (normalize_dec q)"
proof -
  obtain c e where s: "strip_zeros (dcoeff q) (dexp q) = (c, e)" by (cases "strip_zeros (dcoeff q) (dexp q)")
  note f = dec_fix_small [OF assms]
  show "dec_val (normalize_dec q) = dec_val q"
    using strip_zeros_val(1) [OF s] by (simp add: normalize_dec_def f s dec_val_def)
  show "dcoeff q = 0 \<Longrightarrow> dexp (normalize_dec q) = 0"
    by (simp add: normalize_dec_def f)
  show "dcoeff q \<noteq> 0 \<Longrightarrow> dexp q \<le> dexp (normalize_dec q)"
    using strip_zeros_val(2) [OF s] by (simp add: normalize_dec_def f s)
qed

lemma trunc_places_floor:
  "trunc_places k x = (if 0 \<le> x then of_int \<lfloor>x * 10 ^ k\<rfloor> / 10 ^ k else - (of_int \<lfloor>- x * 10 ^ k\<rfloor> / 10 ^ k))"
  by (simp add: trunc_places_def)

lemma floor_scaled_small:
  fixes c k :: nat
  shows "\<lfloor>(of_nat c :: rat) / 10 ^ k\<rfloor> = int (c div 10 ^ k)"
  using floor_divide_of_nat_eq [of c "10 ^ k", where ?'a = rat] by simp

lemma rescale_mag:
  "(of_int \<lfloor>(of_nat c * 10 powi e :: rat) * 10 ^ 6\<rfloor> / 10 ^ 6 :: rat)
     = of_nat (if - 6 \<le> e then c * 10 ^ nat (e + 6) else c div 10 ^ nat (- 6 - e)) * 10 powi (- 6)"
proof (cases "- 6 \<le> e")
  case True
  have "(of_nat c * 10 powi e :: rat) * 10 ^ 6 = of_nat c * (10 powi e * 10 powi 6)" by simp
  also have "\<dots> = of_nat c * 10 powi (e + 6)" by (simp add: power_int_add)
  also have "\<dots> = of_nat (c * 10 ^ nat (e + 6))" using True by (simp add: power_int_def)
  finally have m: "(of_nat c * 10 powi e :: rat) * 10 ^ 6 = of_nat (c * 10 ^ nat (e + 6))" .
  show ?thesis unfolding m using True by (simp add: power_int_minus_divide)
next
  case False
  define k where "k = nat (- 6 - e)"
  have e: "e = - 6 + - int k" using False by (simp add: k_def)
  have p: "(10::rat) powi (- int k) = 1 / 10 ^ k" by (simp add: power_int_minus_divide)
  have q: "(10::rat) powi (- 6) * 10 ^ 6 = 1" by (simp add: power_int_minus_divide)
  have "(10::rat) powi e = 10 powi (- 6) * 10 powi (- int k)"
    unfolding e by (rule power_int_add) simp
  then have "(of_nat c * 10 powi e :: rat) * 10 ^ 6
      = of_nat c * (10 powi (- 6) * 10 ^ 6) * 10 powi (- int k)" by simp
  also have "\<dots> = of_nat c / 10 ^ k" unfolding q p by simp
  finally have m: "(of_nat c * 10 powi e :: rat) * 10 ^ 6 = of_nat c / 10 ^ k" .
  show ?thesis unfolding m floor_scaled_small using False by (simp add: k_def)
qed

lemma mag_pos: "0 < c \<Longrightarrow> 0 < (of_nat c * 10 powi e :: rat)"
proof -
  assume "0 < c"
  moreover have "(0::rat) < 10 powi e" by (simp add: power_int_def)
  ultimately show ?thesis by simp
qed

lemma mag_nonneg: "0 \<le> (of_nat c * 10 powi e :: rat)"
  by (simp add: power_int_def)

lemma mag_zero_iff: "(of_nat c * 10 powi e :: rat) = 0 \<longleftrightarrow> c = 0"
  by simp

lemma rescale_down_val: "dec_val (rescale_down d (- 6)) = trunc_places 6 (dec_val d)"
proof -
  let ?m = "of_nat (dcoeff d) * 10 powi dexp d :: rat"
  let ?c' = "if - 6 \<le> dexp d then dcoeff d * 10 ^ nat (dexp d + 6) else dcoeff d div 10 ^ nat (- 6 - dexp d)"
  have r: "rescale_down d (- 6) = Dec (dsign d) ?c' (- 6)"
    by (simp add: rescale_down_def)
  have t: "(of_int \<lfloor>?m * 10 ^ 6\<rfloor> / 10 ^ 6 :: rat) = of_nat ?c' * 10 powi (- 6)"
    by (rule rescale_mag)
  show ?thesis
  proof (cases "dsign d \<and> dcoeff d \<noteq> 0")
    case True
    then have x: "dec_val d = - ?m" by (simp add: dec_val_def)
    have "0 < ?m" by (rule mag_pos) (use True in simp)
    then have n: "\<not> 0 \<le> dec_val d" unfolding x by linarith
    have "trunc_places 6 (dec_val d) = - (of_int \<lfloor>?m * 10 ^ 6\<rfloor> / 10 ^ 6)"
      using n by (simp add: trunc_places_floor x)
    also have "\<dots> = - (of_nat ?c' * 10 powi (- 6))" by (simp only: t)
    also have "\<dots> = dec_val (rescale_down d (- 6))" using True by (simp add: r dec_val_def)
    finally show ?thesis by simp
  next
    case False
    show ?thesis
    proof (cases "dcoeff d = 0")
      case True
      then show ?thesis by (simp add: rescale_down_def dec_val_def trunc_places_def)
    next
      case nz: False
      with False have s: "\<not> dsign d" by simp
      then have x: "dec_val d = ?m" by (simp add: dec_val_def)
      have "trunc_places 6 (dec_val d) = of_int \<lfloor>?m * 10 ^ 6\<rfloor> / 10 ^ 6"
        using mag_nonneg [of "dcoeff d" "dexp d"] by (simp add: trunc_places_floor x)
      also have "\<dots> = of_nat ?c' * 10 powi (- 6)" by (simp only: t)
      also have "\<dots> = dec_val (rescale_down d (- 6))" using s by (simp add: r dec_val_def)
      finally show ?thesis by simp
    qed
  qed
qed

lemma trunc_places_abs:
  "\<bar>trunc_places k x\<bar> = of_int \<lfloor>\<bar>x\<bar> * 10 ^ k\<rfloor> / 10 ^ k"
proof (cases "0 \<le> x")
  case True
  then have "0 \<le> x * 10 ^ k" by simp
  then have "0 \<le> \<lfloor>x * 10 ^ k\<rfloor>" by simp
  then have "(0::rat) \<le> of_int \<lfloor>x * 10 ^ k\<rfloor> / 10 ^ k" by simp
  then show ?thesis using True by (simp add: trunc_places_def abs_of_nonneg)
next
  case False
  then have "0 \<le> - x" by simp
  then have "0 \<le> - x * 10 ^ k" by (intro mult_nonneg_nonneg) simp_all
  then have "0 \<le> \<lfloor>- x * 10 ^ k\<rfloor>" by (simp only: zero_le_floor of_int_0)
  then have nn: "(0::rat) \<le> of_int \<lfloor>- x * 10 ^ k\<rfloor> / 10 ^ k" by simp
  have t: "trunc_places k x = - (of_int \<lfloor>- x * 10 ^ k\<rfloor> / 10 ^ k)"
    using False by (simp add: trunc_places_def)
  have ax: "\<bar>x\<bar> = - x" using False by simp
  show ?thesis unfolding t ax abs_minus_cancel using nn by (rule abs_of_nonneg)
qed

lemma trunc_places_bounds:
  shows "\<bar>trunc_places k x\<bar> \<le> \<bar>x\<bar>" and "\<bar>x\<bar> - \<bar>trunc_places k x\<bar> < 1 / 10 ^ k"
    and "0 \<le> x \<Longrightarrow> trunc_places k x \<le> x" and "0 \<le> x \<Longrightarrow> 0 \<le> trunc_places k x"
proof -
  let ?y = "\<bar>x\<bar> * 10 ^ k"
  have p: "(0::rat) < 10 ^ k" by simp
  have l: "of_int \<lfloor>?y\<rfloor> \<le> ?y" by (rule of_int_floor_le)
  have u: "?y < of_int \<lfloor>?y\<rfloor> + 1" using floor_correct [of ?y] by simp
  from l have "of_int \<lfloor>?y\<rfloor> / 10 ^ k \<le> \<bar>x\<bar>" using p by (simp add: divide_le_eq)
  then show a: "\<bar>trunc_places k x\<bar> \<le> \<bar>x\<bar>" by (simp only: trunc_places_abs)
  from u have "\<bar>x\<bar> < (of_int \<lfloor>?y\<rfloor> + 1) / 10 ^ k" using p by (simp add: less_divide_eq)
  then have "\<bar>x\<bar> < of_int \<lfloor>?y\<rfloor> / 10 ^ k + 1 / 10 ^ k" by (simp add: add_divide_distrib)
  then show "\<bar>x\<bar> - \<bar>trunc_places k x\<bar> < 1 / 10 ^ k" unfolding trunc_places_abs by linarith
  show n: "0 \<le> x \<Longrightarrow> 0 \<le> trunc_places k x"
  proof -
    assume "0 \<le> x"
    then have "0 \<le> \<lfloor>x * 10 ^ k\<rfloor>" by simp
    then show ?thesis using \<open>0 \<le> x\<close> by (simp add: trunc_places_def)
  qed
  show "0 \<le> x \<Longrightarrow> trunc_places k x \<le> x" using a n by linarith
qed

lemma quantize_zero: "dcoeff d = 0 \<Longrightarrow> quantize_down d (- 6) = Inr (Dec (dsign d) 0 (- 6))"
  by (simp add: quantize_down_def dec_fix_def)

lemma quantize_large:
  "dcoeff d \<noteq> 0 \<Longrightarrow> 22 \<le> adjusted d \<Longrightarrow> quantize_down d (- 6) = Inl InvalidOperation"
  by (simp add: quantize_down_def prec_def)

lemma rescale_digits:
  assumes c: "dcoeff d \<noteq> 0" and a: "adjusted d < 22"
  shows "ndigits (dcoeff (rescale_down d (- 6))) \<le> prec"
proof -
  let ?n = "ndigits (dcoeff d)"
  have b: "dcoeff d < 10 ^ ?n" by (rule less_pow_ndigits)
  from a have ne: "int ?n + dexp d \<le> 22" by (simp add: adjusted_def)
  show ?thesis
  proof (cases "- 6 \<le> dexp d")
    case True
    define j where "j = nat (dexp d + 6)"
    have j: "?n + j \<le> 28" using True ne by (simp add: j_def)
    have "dcoeff d * 10 ^ j < 10 ^ ?n * 10 ^ j" using b by simp
    also have "\<dots> = 10 ^ (?n + j)" by (simp add: power_add)
    also have "\<dots> \<le> 10 ^ 28" using j by (rule power_increasing) simp
    finally have "ndigits (dcoeff d * 10 ^ j) \<le> 28" by (simp add: ndigits_le_iff)
    then show ?thesis using True c by (simp add: rescale_down_def j_def prec_def)
  next
    case False
    define k where "k = nat (- 6 - dexp d)"
    have k: "?n \<le> 28 + k" using False ne by (simp add: k_def)
    have "dcoeff d < 10 ^ ?n" by (rule b)
    also have "\<dots> \<le> 10 ^ (28 + k)" using k by (rule power_increasing) simp
    finally have "dcoeff d < 10 ^ 28 * 10 ^ k" by (simp add: power_add)
    then have "dcoeff d div 10 ^ k < 10 ^ 28" by (simp add: div_less_iff_less_mult)
    then have "ndigits (dcoeff d div 10 ^ k) \<le> 28" by (simp add: ndigits_le_iff)
    then show ?thesis using False c by (simp add: rescale_down_def k_def prec_def)
  qed
qed

lemma quantize_small:
  assumes c: "dcoeff d \<noteq> 0" and a: "adjusted d < 22"
  shows "quantize_down d (- 6) = Inr (rescale_down d (- 6))"
  using rescale_digits [OF c a] dec_fix_small [OF rescale_digits [OF c a]] c a
  by (simp add: quantize_down_def Let_def prec_def)

lemma abs_dec_val: "\<bar>dec_val d\<bar> = of_nat (dcoeff d) * 10 powi dexp d"
proof -
  have "(0::rat) \<le> of_nat (dcoeff d) * 10 powi dexp d" by (rule mag_nonneg)
  then show ?thesis by (simp add: dec_val_def abs_mult)
qed

lemma adjusted_iff:
  assumes c: "dcoeff d \<noteq> 0"
  shows "adjusted d < 22 \<longleftrightarrow> \<bar>dec_val d\<bar> < 10 ^ 22"
proof
  let ?n = "ndigits (dcoeff d)"
  have p: "(0::rat) < 10 powi dexp d" by (simp add: power_int_def)
  {
    assume "adjusted d < 22"
    then have ne: "int ?n + dexp d \<le> 22" by (simp add: adjusted_def)
    have "(of_nat (dcoeff d) :: rat) < of_nat (10 ^ ?n)" using less_pow_ndigits [of "dcoeff d"] by (simp only: of_nat_less_iff)
    then have "(of_nat (dcoeff d) :: rat) < 10 powi int ?n" by simp
    then have "(of_nat (dcoeff d) * 10 powi dexp d :: rat) < 10 powi int ?n * 10 powi dexp d"
      using p by (simp only: mult_strict_right_mono)
    also have "\<dots> = 10 powi (int ?n + dexp d)" by (rule power_int_add [symmetric]) simp
    also have "\<dots> \<le> 10 powi 22" using ne by (rule power_int_increasing) simp
    finally show "\<bar>dec_val d\<bar> < 10 ^ 22" by (simp add: abs_dec_val)
  }
  {
    assume v: "\<bar>dec_val d\<bar> < 10 ^ 22"
    show "adjusted d < 22"
    proof (rule ccontr)
      assume "\<not> adjusted d < 22"
      then have ne: "22 \<le> int (?n - 1) + dexp d" using ndigits_pos [of "dcoeff d"] by (simp add: adjusted_def)
      have "(10::rat) powi 22 \<le> 10 powi (int (?n - 1) + dexp d)" using ne by (rule power_int_increasing) simp
      also have "\<dots> = 10 powi int (?n - 1) * 10 powi dexp d" by (rule power_int_add) simp
      also have "\<dots> = of_nat (10 ^ (?n - 1)) * 10 powi dexp d" by simp
      also have "\<dots> \<le> of_nat (dcoeff d) * 10 powi dexp d"
      proof (rule mult_right_mono)
        show "(of_nat (10 ^ (?n - 1)) :: rat) \<le> of_nat (dcoeff d)"
          using pow_ndigits_le [OF c] by (rule of_nat_mono)
        show "(0::rat) \<le> 10 powi dexp d" using p by (rule less_imp_le)
      qed
      finally show False using v by (simp add: abs_dec_val)
    qed
  }
qed

lemma ndigits_zero: "ndigits 0 = 1"
  by (subst ndigits_rec) simp

lemma quantize_display:
  assumes "\<bar>dec_val d\<bar> < 10 ^ 22"
  shows "quantize_down d (- 6) = Inr (rescale_down d (- 6))"
    and "ndigits (dcoeff (rescale_down d (- 6))) \<le> prec"
proof -
  show "quantize_down d (- 6) = Inr (rescale_down d (- 6))"
  proof (cases "dcoeff d = 0")
    case True
    then show ?thesis by (simp add: quantize_zero rescale_down_def)
  next
    case False
    with assms have "adjusted d < 22" by (simp add: adjusted_iff)
    with False show ?thesis by (rule quantize_small)
  qed
  show "ndigits (dcoeff (rescale_down d (- 6))) \<le> prec"
  proof (cases "dcoeff d = 0")
    case True
    then show ?thesis by (simp add: rescale_down_def ndigits_zero prec_def)
  next
    case False
    with assms have "adjusted d < 22" by (simp add: adjusted_iff)
    with False show ?thesis by (rule rescale_digits)
  qed
qed

lemma rescale_down_exp: "dexp (rescale_down d e) = e"
  by (simp add: rescale_down_def)

lemma display_text:
  "display_value (s @ '' BNB'') = fixed_value s"
  "display_places (s @ '' BNB'') = length (dropWhile (\<lambda>c. c \<noteq> CHR ''.'') s) - 1"
  by (simp_all add: display_value_def display_places_def)

text \<open>
  C9, as amended. For every finite Decimal \<open>d\<close> of magnitude below \<open>10 ^ 22\<close>,
  \<^verbatim>\<open>format_bnb\<close> returns a text ending in \<^verbatim>\<open> BNB\<close> whose number is \<open>d\<close> cut after six
  decimal places, toward zero, written with at most six digits after the point (trailing
  zeros are dropped by \<^verbatim>\<open>normalize\<close>). From \<open>10 ^ 22\<close> on it raises
  \<^verbatim>\<open>InvalidOperation\<close>: the quantized coefficient would not fit the 28 digits of the
  context. The cut value is never larger in magnitude than \<open>d\<close>, differs from it by less
  than \<open>10 ^ -6\<close>, and for \<open>d \<ge> 0\<close> lies between 0 and \<open>d\<close>: nothing is rounded up.
\<close>

theorem format_bnb_truncates:
  "(\<bar>dec_val d\<bar> < 10 ^ 22 \<longrightarrow>
      (case format_bnb d of
         Inl e \<Rightarrow> False
       | Inr txt \<Rightarrow> display_value txt = Some (trunc_places 6 (dec_val d)) \<and> display_places txt \<le> 6))
   \<and> (10 ^ 22 \<le> \<bar>dec_val d\<bar> \<longrightarrow> format_bnb d = Inl InvalidOperation)
   \<and> \<bar>trunc_places 6 (dec_val d)\<bar> \<le> \<bar>dec_val d\<bar>
   \<and> \<bar>dec_val d\<bar> - \<bar>trunc_places 6 (dec_val d)\<bar> < 1 / 10 ^ 6
   \<and> (0 \<le> dec_val d \<longrightarrow> 0 \<le> trunc_places 6 (dec_val d) \<and> trunc_places 6 (dec_val d) \<le> dec_val d)"
proof (intro conjI impI)
  assume small: "\<bar>dec_val d\<bar> < 10 ^ 22"
  let ?q = "rescale_down d (- 6)"
  let ?n = "normalize_dec ?q"
  note q = quantize_display [OF small]
  have f: "format_bnb d = Inr (format_f ?n @ '' BNB'')"
    by (simp add: format_bnb_def DECIMALS_DISPLAY_def q(1))
  have v: "dec_val ?n = trunc_places 6 (dec_val d)"
    by (simp add: normalize_dec_val(1) [OF q(2)] rescale_down_val)
  have e: "- 6 \<le> dexp ?n"
    using normalize_dec_val(2,3) [OF q(2)] by (cases "dcoeff ?q = 0") (simp_all add: rescale_down_exp)
  have p: "display_places (format_f ?n @ '' BNB'') \<le> 6"
    unfolding display_text places_format_f using e by simp
  show "case format_bnb d of
          Inl e \<Rightarrow> False
        | Inr txt \<Rightarrow> display_value txt = Some (trunc_places 6 (dec_val d)) \<and> display_places txt \<le> 6"
    unfolding f using p by (simp add: display_text(1) fixed_value_format_f v)
next
  assume large: "10 ^ 22 \<le> \<bar>dec_val d\<bar>"
  have c: "dcoeff d \<noteq> 0"
  proof
    assume "dcoeff d = 0"
    then have "\<bar>dec_val d\<bar> = 0" by (simp add: abs_dec_val)
    with large show False by simp
  qed
  with large have "\<not> adjusted d < 22" by (simp add: adjusted_iff)
  then have "quantize_down d (- 6) = Inl InvalidOperation" using c by (simp add: quantize_large)
  then show "format_bnb d = Inl InvalidOperation"
    by (simp add: format_bnb_def DECIMALS_DISPLAY_def)
next
  show "\<bar>trunc_places 6 (dec_val d)\<bar> \<le> \<bar>dec_val d\<bar>"
    by (rule trunc_places_bounds(1))
next
  show "\<bar>dec_val d\<bar> - \<bar>trunc_places 6 (dec_val d)\<bar> < 1 / 10 ^ 6"
    by (rule trunc_places_bounds(2))
next
  assume "0 \<le> dec_val d"
  then show "0 \<le> trunc_places 6 (dec_val d)" by (rule trunc_places_bounds(4))
next
  assume "0 \<le> dec_val d"
  then show "trunc_places 6 (dec_val d) \<le> dec_val d" by (rule trunc_places_bounds(3))
qed

text \<open>
  The claim as stated, for every decimal amount, fails at \<open>10 ^ 22\<close>
  (\<^verbatim>\<open>Decimal("1E+22")\<close>): nothing is displayed, \<^verbatim>\<open>quantize\<close> raises.
\<close>

theorem format_bnb_raises_at_1e22:
  "dec_val (Dec False 1 22) = 10 ^ 22 \<and> format_bnb (Dec False 1 22) = Inl InvalidOperation"
  by (simp add: dec_val_def dec_eval digits10_small)

lemma format_bnb_long: "format_bnb (Dec False 12345678999 (- 7)) = Inr ''1234.567899 BNB''"
  by (simp add: dec_eval digits10_small)

lemma format_bnb_tiny: "format_bnb (Dec True 1 (- 7)) = Inr ''-0 BNB''"
  by (simp add: dec_eval digits10_small)

theorem format_bnb_truncates_examples:
  "format_bnb (Dec False 12345678999 (- 7)) = Inr ''1234.567899 BNB''
   \<and> display_value ''1234.567899 BNB'' = Some (trunc_places 6 (dec_val (Dec False 12345678999 (- 7))))
   \<and> display_value ''1234.567899 BNB'' = Some (1234567899 / 1000000)
   \<and> format_bnb (Dec True 1 (- 7)) = Inr ''-0 BNB''
   \<and> display_value ''-0 BNB'' = Some (trunc_places 6 (dec_val (Dec True 1 (- 7))))
   \<and> display_value ''-0 BNB'' = Some 0"
proof -
  have s1: "\<bar>dec_val (Dec False 12345678999 (- 7))\<bar> < 10 ^ 22"
    and s2: "\<bar>dec_val (Dec True 1 (- 7))\<bar> < 10 ^ 22"
    by (simp_all add: dec_val_def)
  have d1: "display_value ''1234.567899 BNB'' = Some (1234567899 / 1000000)"
    and d2: "display_value ''-0 BNB'' = Some 0"
    by (simp_all add: display_value_def fixed_value_def is_digits_def isdigit_def digits_val_def digit_val_def Let_def)
  from format_bnb_truncates [of "Dec False 12345678999 (- 7)", THEN conjunct1] s1
  have a: "display_value ''1234.567899 BNB'' = Some (trunc_places 6 (dec_val (Dec False 12345678999 (- 7))))"
    by (simp add: format_bnb_long)
  from format_bnb_truncates [of "Dec True 1 (- 7)", THEN conjunct1] s2
  have b: "display_value ''-0 BNB'' = Some (trunc_places 6 (dec_val (Dec True 1 (- 7))))"
    by (simp add: format_bnb_tiny del: One_nat_def)
  show ?thesis using a b d1 d2 format_bnb_long format_bnb_tiny by simp
qed

subsection \<open>Refused withdrawal requests\<close>

text \<open>When \<^verbatim>\<open>format_bnb\<close> renders and when it raises.\<close>

lemma format_bnb_small:
  assumes "\<bar>dec_val d\<bar> < 10 ^ 22"
  shows "\<exists>txt. format_bnb d = Inr txt"
  using quantize_display(1) [OF assms] by (simp add: format_bnb_def DECIMALS_DISPLAY_def)

lemma format_bnb_large:
  assumes large: "10 ^ 22 \<le> \<bar>dec_val d\<bar>"
  shows "format_bnb d = Inl InvalidOperation"
proof -
  have c: "dcoeff d \<noteq> 0"
  proof
    assume "dcoeff d = 0"
    then have "\<bar>dec_val d\<bar> = 0" by (simp add: abs_dec_val)
    with large show False by simp
  qed
  with large have "\<not> adjusted d < 22" by (simp add: adjusted_iff)
  then have "quantize_down d (- 6) = Inl InvalidOperation" using c by (simp add: quantize_large)
  then show ?thesis by (simp add: format_bnb_def DECIMALS_DISPLAY_def)
qed

lemma withdraw_below_minimum:
  assumes "user_is_verified tid s" and "get_user_row tid s = Some r"
    and "trig = Callback \<longrightarrow> answer_ok tg"
    and "dec_less (balance r) (MIN_WITHDRAW cfg)"
  shows "fst (withdraw_action cfg tg trig tid clock s) =
           (case format_bnb (MIN_WITHDRAW cfg) of
              Inl e \<Rightarrow> ([], Some e)
            | Inr m \<Rightarrow>
                (case format_bnb (balance r) of
                   Inl e \<Rightarrow> ([], Some e)
                 | Inr b \<Rightarrow> fst (safe_send_and_store (send_id tg) tid (MinimumWithdrawal m b) s)))"
  using assms
  by (auto simp: withdraw_action_def db_defs io_defs Let_def split: option.splits sum.splits)

text \<open>
  C6, as amended. \<^verbatim>\<open>withdraw_action\<close> creates no withdrawal row, and uses no id of the
  sequence, for a user who is not verified and, for a verified user with row \<open>r\<close>, when
  the balance is below \<^verbatim>\<open>MIN_WITHDRAW\<close> or no payout address is set (none, or the empty
  text), whatever Telegram answers. For a verified user (on a button press, with an
  answered callback)
  \<^item> a balance below the minimum is answered with the minimum-withdrawal message
    (BelowMinimum), built from the displayed minimum and balance, when both are of
    magnitude below \<open>10 ^ 22\<close>;
  \<^item> with a balance below the minimum and one of the two of magnitude \<open>10 ^ 22\<close> or more,
    \<^verbatim>\<open>format_bnb\<close> raises \<^verbatim>\<open>InvalidOperation\<close> and nothing is sent;
  \<^item> a balance that reaches the minimum, with no address set, is answered with the
    set-a-wallet-first message (NoPayoutAddress).
  The balance is tested first, as in the source. Nothing is said here of a request that
  passes these tests: its row is inserted before the operator is notified.
\<close>

theorem withdraw_refusals_create_no_row:
  "(\<not> user_is_verified tid s
     \<or> (get_user_row tid s = Some r
         \<and> (dec_less (balance r) (MIN_WITHDRAW cfg) \<or> wallet r = None \<or> wallet r = Some [])) \<longrightarrow>
      withdrawals (snd (withdraw_action cfg tg trig tid clock s)) = withdrawals s
      \<and> wid_seq (snd (withdraw_action cfg tg trig tid clock s)) = wid_seq s)
   \<and> (user_is_verified tid s \<and> get_user_row tid s = Some r \<and> (trig = Callback \<longrightarrow> answer_ok tg)
       \<and> dec_less (balance r) (MIN_WITHDRAW cfg)
       \<and> \<bar>dec_val (MIN_WITHDRAW cfg)\<bar> < 10 ^ 22 \<and> \<bar>dec_val (balance r)\<bar> < 10 ^ 22 \<longrightarrow>
      (\<exists>m b. format_bnb (MIN_WITHDRAW cfg) = Inr m \<and> format_bnb (balance r) = Inr b
         \<and> fst (fst (withdraw_action cfg tg trig tid clock s)) = [SendMessage tid (MinimumWithdrawal m b)]))
   \<and> (user_is_verified tid s \<and> get_user_row tid s = Some r \<and> (trig = Callback \<longrightarrow> answer_ok tg)
       \<and> dec_less (balance r) (MIN_WITHDRAW cfg)
       \<and> (10 ^ 22 \<le> \<bar>dec_val (MIN_WITHDRAW cfg)\<bar> \<or> 10 ^ 22 \<le> \<bar>dec_val (balance r)\<bar>) \<longrightarrow>
      fst (withdraw_action cfg tg trig tid clock s) = ([], Some InvalidOperation))
   \<and> (user_is_verified tid s \<and> get_user_row tid s = Some r \<and> (trig = Callback \<longrightarrow> answer_ok tg)
       \<and> \<not> dec_less (balance r) (MIN_WITHDRAW cfg) \<and> (wallet r = None \<or> wallet r = Some []) \<longrightarrow>
      fst (fst (withdraw_action cfg tg trig tid clock s)) = [SendMessage tid NeedWallet])"
    (is "?P1 \<and> ?P2 \<and> ?P3 \<and> ?P4")
proof -
  have P1: ?P1
    by (auto simp: withdraw_action_def db_defs io_defs Let_def split: option.splits sum.splits)
  have P2: ?P2
  proof (intro impI, elim conjE)
    assume h: "user_is_verified tid s" "get_user_row tid s = Some r" "trig = Callback \<longrightarrow> answer_ok tg"
      "dec_less (balance r) (MIN_WITHDRAW cfg)"
      and sm: "\<bar>dec_val (MIN_WITHDRAW cfg)\<bar> < 10 ^ 22" and sb: "\<bar>dec_val (balance r)\<bar> < 10 ^ 22"
    from format_bnb_small [OF sm] obtain m where m: "format_bnb (MIN_WITHDRAW cfg) = Inr m" ..
    from format_bnb_small [OF sb] obtain b where b: "format_bnb (balance r) = Inr b" ..
    have "fst (fst (withdraw_action cfg tg trig tid clock s)) = [SendMessage tid (MinimumWithdrawal m b)]"
      unfolding withdraw_below_minimum [OF h] by (simp add: m b safe_send_outs)
    with m b show "\<exists>m b. format_bnb (MIN_WITHDRAW cfg) = Inr m \<and> format_bnb (balance r) = Inr b
         \<and> fst (fst (withdraw_action cfg tg trig tid clock s)) = [SendMessage tid (MinimumWithdrawal m b)]"
      by blast
  qed
  have P3: ?P3
  proof (intro impI, elim conjE)
    assume h: "user_is_verified tid s" "get_user_row tid s = Some r" "trig = Callback \<longrightarrow> answer_ok tg"
      "dec_less (balance r) (MIN_WITHDRAW cfg)"
      and l: "10 ^ 22 \<le> \<bar>dec_val (MIN_WITHDRAW cfg)\<bar> \<or> 10 ^ 22 \<le> \<bar>dec_val (balance r)\<bar>"
    show "fst (withdraw_action cfg tg trig tid clock s) = ([], Some InvalidOperation)"
    proof (cases "10 ^ 22 \<le> \<bar>dec_val (MIN_WITHDRAW cfg)\<bar>")
      case True
      then show ?thesis unfolding withdraw_below_minimum [OF h] by (simp add: format_bnb_large)
    next
      case False
      then have sm: "\<bar>dec_val (MIN_WITHDRAW cfg)\<bar> < 10 ^ 22" by simp
      from False l have lb: "10 ^ 22 \<le> \<bar>dec_val (balance r)\<bar>" by simp
      from format_bnb_small [OF sm] obtain m where m: "format_bnb (MIN_WITHDRAW cfg) = Inr m" ..
      show ?thesis unfolding withdraw_below_minimum [OF h] by (simp add: m format_bnb_large [OF lb])
    qed
  qed
  have P4: ?P4
    by (auto simp: withdraw_action_def db_defs io_defs Let_def split: option.splits sum.splits)
  from P1 P2 P3 P4 show ?thesis by blast
qed

text \<open>
  User 8 presses the button with 0.1, under the minimum 0.5 and under a minimum of
  \<open>10 ^ 22\<close>; user 9 sends the command with 0.5 and no address; user 3 has no row.
\<close>

theorem withdraw_refusals_examples:
  "withdrawals (snd (withdraw_action cfg0 tg_ok Callback 8 1000 bot89)) = withdrawals bot89
   \<and> fst (fst (withdraw_action cfg0 tg_ok Callback 8 1000 bot89))
       = [SendMessage 8 (MinimumWithdrawal ''0.5 BNB'' ''0.1 BNB'')]
   \<and> fst (withdraw_action (cfg0\<lparr>MIN_WITHDRAW := Dec False 1 22\<rparr>) tg_ok Callback 8 1000 bot89)
       = ([], Some InvalidOperation)
   \<and> withdrawals (snd (withdraw_action (cfg0\<lparr>MIN_WITHDRAW := Dec False 1 22\<rparr>) tg_ok Callback 8 1000 bot89))
       = withdrawals bot89
   \<and> withdrawals (snd (withdraw_action cfg0 tg_ok Command 9 1000 bot89)) = withdrawals bot89
   \<and> fst (fst (withdraw_action cfg0 tg_ok Command 9 1000 bot89)) = [SendMessage 9 NeedWallet]
   \<and> withdrawals (snd (withdraw_action cfg0 tg_ok Command 3 1000 bot89)) = withdrawals bot89"
proof -
  let ?big = "cfg0\<lparr>MIN_WITHDRAW := Dec False 1 22\<rparr>"
  have v8: "user_is_verified 8 bot89" and r8: "get_user_row 8 bot89 = Some user8"
    and v9: "user_is_verified 9 bot89" and r9: "get_user_row 9 bot89 = Some user9"
    and v3: "\<not> user_is_verified 3 bot89"
    by (simp_all add: bot89_def user8_def user9_def user7_def user_is_verified_def get_user_row_def)
  have l8: "dec_less (balance user8) (MIN_WITHDRAW cfg0)"
    and l9: "\<not> dec_less (balance user9) (MIN_WITHDRAW cfg0)" and w9: "wallet user9 = None"
    and b8: "dec_less (balance user8) (MIN_WITHDRAW ?big)"
    by (simp_all add: user8_def user9_def user7_def cfg0_def dec_less_def dec_val_def)
  have s: "\<bar>dec_val (MIN_WITHDRAW cfg0)\<bar> < 10 ^ 22" "\<bar>dec_val (balance user8)\<bar> < 10 ^ 22"
    "10 ^ 22 \<le> \<bar>dec_val (MIN_WITHDRAW ?big)\<bar>"
    by (simp_all add: cfg0_def user8_def user7_def dec_val_def)
  have f: "format_bnb (MIN_WITHDRAW cfg0) = Inr ''0.5 BNB''"
    "format_bnb (balance user8) = Inr ''0.1 BNB''"
    by (simp_all add: cfg0_def user8_def format_bnb_half format_bnb_tenth del: One_nat_def)
  have a: "answer_ok tg_ok" by (simp add: tg_ok_def)
  note t8 = withdraw_refusals_create_no_row [where tid = 8 and s = bot89 and r = user8 and cfg = cfg0
      and tg = tg_ok and trig = Callback and clock = 1000]
  note t8b = withdraw_refusals_create_no_row [where tid = 8 and s = bot89 and r = user8 and cfg = ?big
      and tg = tg_ok and trig = Callback and clock = 1000]
  note t9 = withdraw_refusals_create_no_row [where tid = 9 and s = bot89 and r = user9 and cfg = cfg0
      and tg = tg_ok and trig = Command and clock = 1000]
  note t3 = withdraw_refusals_create_no_row [where tid = 3 and s = bot89 and cfg = cfg0
      and tg = tg_ok and trig = Command and clock = 1000]
  have "withdrawals (snd (withdraw_action cfg0 tg_ok Callback 8 1000 bot89)) = withdrawals bot89"
    using t8 [THEN conjunct1] r8 l8 by simp
  moreover have "fst (fst (withdraw_action cfg0 tg_ok Callback 8 1000 bot89))
       = [SendMessage 8 (MinimumWithdrawal ''0.5 BNB'' ''0.1 BNB'')]"
    using t8 [THEN conjunct2, THEN conjunct1] v8 r8 l8 s(1,2) a unfolding f by simp
  moreover have "fst (withdraw_action ?big tg_ok Callback 8 1000 bot89) = ([], Some InvalidOperation)"
    using t8b [THEN conjunct2, THEN conjunct2, THEN conjunct1] v8 r8 b8 s(3) a by simp
  moreover have "withdrawals (snd (withdraw_action ?big tg_ok Callback 8 1000 bot89)) = withdrawals bot89"
    using t8b [THEN conjunct1] r8 b8 by simp
  moreover have "withdrawals (snd (withdraw_action cfg0 tg_ok Command 9 1000 bot89)) = withdrawals bot89"
    using t9 [THEN conjunct1] r9 w9 by simp
  moreover have "fst (fst (withdraw_action cfg0 tg_ok Command 9 1000 bot89)) = [SendMessage 9 NeedWallet]"
    using t9 [THEN conjunct2, THEN conjunct2, THEN conjunct2] v9 r9 l9 w9 by simp
  moreover have "withdrawals (snd (withdraw_action cfg0 tg_ok Command 3 1000 bot89)) = withdrawals bot89"
    using t3 [THEN conjunct1] v3 by simp
  ultimately show ?thesis by simp
qed

text \<open>
  The claim as stated, with no row created in every failing case and BelowMinimum for
  every balance below the minimum, fails twice. User 7 holds the minimum and an address,
  and the message to the operator cannot be sent: the user is answered
  \<^verbatim>\<open>Failed to send withdraw request to admin\<close>, and the row inserted before stays, pending.
  With a minimum of \<open>10 ^ 22\<close> (\<^verbatim>\<open>Decimal("1E+22")\<close>) user 8, below it, gets no message: the
  handler raises \<^verbatim>\<open>InvalidOperation\<close>.
\<close>

theorem withdraw_fails_with_row_kept:
  "user_is_verified 7 bot7
   \<and> withdrawals bot7 1 = None
   \<and> fst (withdraw_action cfg0 (tg_ok\<lparr>notify_ok := False\<rparr>) Command 7 1000 bot7)
       = ([SendMessage 1 (WithdrawRequest ''alice'' 7 ''0.5 BNB'' addr0 0 1), SendMessage 7 WithdrawFailed], None)
   \<and> withdrawals (snd (withdraw_action cfg0 (tg_ok\<lparr>notify_ok := False\<rparr>) Command 7 1000 bot7)) 1 = Some wd1
   \<and> user_is_verified 8 bot89
   \<and> dec_less (balance user8) (MIN_WITHDRAW (cfg0\<lparr>MIN_WITHDRAW := Dec False 1 22\<rparr>))
   \<and> fst (withdraw_action (cfg0\<lparr>MIN_WITHDRAW := Dec False 1 22\<rparr>) tg_ok Command 8 1000 bot89)
       = ([], Some InvalidOperation)"
  by (simp add: withdraw_action_def cfg0_def tg_ok_def bot7_def bot89_def user7_def user8_def empty_bot_def db_defs
      io_defs format_bnb_half dec_less_def dec_val_def addr0_def wd1_def Let_def format_bnb_large)

end
